theory Spec2Isabelle
  imports Complex_Main
begin

section \<open>Numeric model\<close>

text \<open>
  The C++ sources compute on \<^verbatim>\<open>double\<close>. A \<^verbatim>\<open>double\<close> is read as the
  \<^typ>\<open>real\<close> it denotes; infinities and NaN are outside the model. The embedding has
  two levels of detail.
  \<^item> The spectral functions of \<^verbatim>\<open>FourierAnalyzer\<close> (transform, spectrum, harmonics,
    filters) are modelled in exact real arithmetic, as the algorithm they implement.
  \<^item> Where the rounding of an operation decides a comparison or the exit of a loop, or
    the statement is about the rounding error itself (\<^verbatim>\<open>WaveFunction\<close>, the beat
    frequency and the phenomenon of \<^verbatim>\<open>WaveEngine\<close>, \<^verbatim>\<open>InterferenceCalculator\<close>, and
    the transform in \<^verbatim>\<open>double\<close> arithmetic), every arithmetic operation is written with
    its rounding \<open>rnd\<close>.

  \<^verbatim>\<open>size_t\<close> values are natural numbers; where the source subtracts two of them the
  wrap-around modulo \<open>2 ^ 64\<close> is written out.
\<close>

subsection \<open>Rounding to double precision\<close>

text \<open>
  \<open>rnd x\<close> is \<open>x\<close> rounded to the nearest number with a significand of 53 bits, ties
  to the even significand: the IEEE 754 rounding of every \<^verbatim>\<open>double\<close> operation
  \<open>+\<close>, \<open>-\<close>, \<open>*\<close>, \<open>/\<close>, wherever the result neither overflows nor is subnormal (the
  exponent of \<open>rnd\<close> is unbounded). Each operation rounds on its own, as in a
  compilation without fused multiply-add. \<open>rne\<close> rounds a real to the nearest
  integer, ties to even; \<open>rnd_pos\<close> scales a positive \<open>x\<close> by powers of two into
  \<open>[2\<^sup>5\<^sup>2, 2\<^sup>5\<^sup>3)\<close>, rounds it there to an integer and scales back.
\<close>

definition rne :: "real \<Rightarrow> int" where
  "rne m =
     (let f = \<lfloor>m\<rfloor>; r = m - of_int f
      in if r < 1 / 2 then f
         else if 1 / 2 < r then f + 1
         else if even f then f else f + 1)"

function rnd_pos :: "real \<Rightarrow> real" where
  "rnd_pos x =
     (if x \<le> 0 then 0
      else if 2 ^ 53 \<le> x then 2 * rnd_pos (x / 2)
      else if x < 2 ^ 52 then rnd_pos (2 * x) / 2
      else of_int (rne x))"
  by pat_completeness auto
termination
proof (relation "measure (\<lambda>x. nat \<bar>\<lfloor>log 2 x\<rfloor> - 52\<bar>)")
  fix x :: real
  assume a: "\<not> x \<le> 0" "2 ^ 53 \<le> x"
  have "log 2 (x / 2) = log 2 x - 1" using a by (simp add: log_divide)
  then have f: "\<lfloor>log 2 (x / 2)\<rfloor> = \<lfloor>log 2 x\<rfloor> - 1" by simp
  have "log 2 ((2::real) ^ 53) = real 53 * log 2 2" by (rule log_nat_power) simp
  then have l53: "log 2 ((2::real) ^ 53) = 53" by simp
  have "log 2 (2 ^ 53) \<le> log 2 x" using a by (subst log_le_cancel_iff) simp_all
  then have "53 \<le> log 2 x" unfolding l53 .
  then have "53 \<le> \<lfloor>log 2 x\<rfloor>" by (simp add: le_floor_iff)
  with f have "nat \<bar>\<lfloor>log 2 (x / 2)\<rfloor> - 52\<bar> < nat \<bar>\<lfloor>log 2 x\<rfloor> - 52\<bar>" by linarith
  then show "(x / 2, x) \<in> measure (\<lambda>x. nat \<bar>\<lfloor>log 2 x\<rfloor> - 52\<bar>)" by (simp only: in_measure)
next
  fix x :: real
  assume a: "\<not> x \<le> 0" "\<not> 2 ^ 53 \<le> x" "x < 2 ^ 52"
  have "log 2 (2 * x) = 1 + log 2 x" using a by (simp add: log_mult)
  then have f: "\<lfloor>log 2 (2 * x)\<rfloor> = \<lfloor>log 2 x\<rfloor> + 1" by simp
  have "log 2 ((2::real) ^ 52) = real 52 * log 2 2" by (rule log_nat_power) simp
  then have l52: "log 2 ((2::real) ^ 52) = 52" by simp
  have "log 2 x < log 2 (2 ^ 52)" using a by (subst log_less_cancel_iff) simp_all
  then have "log 2 x < 52" unfolding l52 .
  then have "\<lfloor>log 2 x\<rfloor> < 52" by (simp add: floor_less_iff)
  with f have "nat \<bar>\<lfloor>log 2 (2 * x)\<rfloor> - 52\<bar> < nat \<bar>\<lfloor>log 2 x\<rfloor> - 52\<bar>" by linarith
  then show "(2 * x, x) \<in> measure (\<lambda>x. nat \<bar>\<lfloor>log 2 x\<rfloor> - 52\<bar>)" by (simp only: in_measure)
qed simp

declare rnd_pos.simps [simp del]

definition rnd :: "real \<Rightarrow> real" where
  "rnd x = (if x < 0 then - rnd_pos (- x) else rnd_pos x)"

text \<open>
  The C library's \<^verbatim>\<open>std::sin\<close> and \<^verbatim>\<open>std::cos\<close> on \<^verbatim>\<open>double\<close> are parameters (\<open>sin_d\<close>,
  \<open>cos_d\<close>) of the functions that call them. The closed examples take a library that
  rounds correctly: \<open>sin_rn\<close> and \<open>cos_rn\<close>.
\<close>

definition sin_rn :: "real \<Rightarrow> real" where
  "sin_rn a = rnd (sin a)"

definition cos_rn :: "real \<Rightarrow> real" where
  "cos_rn a = rnd (cos a)"

subsection \<open>PhysicsConstants.h\<close>

text \<open>
  \<^verbatim>\<open>constexpr double PI = 3.14159265358979323846\<close> is the \<^verbatim>\<open>double\<close> nearest to
  \<open>\<pi>\<close>. In exact real arithmetic (\<open>PI\<close>, \<open>TWO_PI\<close>) it is \<open>\<pi>\<close> itself; in
  \<open>double\<close> arithmetic (\<open>PI_d\<close>, \<open>TWO_PI_d\<close>) it is the rounded literal.
\<close>

definition PI :: real where
  "PI = pi"

definition TWO_PI :: real where
  "TWO_PI = 2 * PI"

definition PI_d :: real where
  "PI_d = rnd 3.14159265358979323846"

definition TWO_PI_d :: real where
  "TWO_PI_d = rnd (2 * PI_d)"

text \<open>\<^verbatim>\<open>constexpr double DEG_TO_RAD = PI / 180.0\<close>.\<close>

definition DEG_TO_RAD_d :: real where
  "DEG_TO_RAD_d = rnd (PI_d / 180)"

section \<open>WaveFunction.h, WaveFunction.cpp\<close>

text \<open>
  The five concrete subclasses of the abstract class \<^verbatim>\<open>WaveFunction\<close>; each holds
  \<^verbatim>\<open>amplitude_\<close>, \<^verbatim>\<open>frequency_\<close> and \<^verbatim>\<open>phase_\<close> (degrees).
\<close>

datatype WaveFunction =
    SinusoidalWave (getAmplitude: real) (getFrequency: real) (getPhase: real)
  | CosineWave (getAmplitude: real) (getFrequency: real) (getPhase: real)
  | SquareWave (getAmplitude: real) (getFrequency: real) (getPhase: real)
  | TriangularWave (getAmplitude: real) (getFrequency: real) (getPhase: real)
  | SawtoothWave (getAmplitude: real) (getFrequency: real) (getPhase: real)

text \<open>
  \<^verbatim>\<open>evaluate(x, t)\<close> is a virtual method. Its implementations call the C library's
  \<^verbatim>\<open>std::sin\<close> and \<^verbatim>\<open>std::cos\<close> on \<^verbatim>\<open>double\<close> values, which are the parameters \<open>sin_d\<close>
  and \<open>cos_d\<close> here; \<^verbatim>\<open>std::floor\<close> is exact, and every other operation is rounded. No
  implementation uses the position \<open>x\<close>.
\<close>

definition evaluate ::
  "(real \<Rightarrow> real) \<Rightarrow> (real \<Rightarrow> real) \<Rightarrow> WaveFunction \<Rightarrow> real \<Rightarrow> real \<Rightarrow> real" where
  "evaluate sin_d cos_d wave x t =
     (case wave of
        SinusoidalWave amplitude frequency phase \<Rightarrow>
          rnd (amplitude * sin_d (rnd (rnd (rnd (TWO_PI_d * frequency) * t)
                                         + rnd (phase * DEG_TO_RAD_d))))
      | CosineWave amplitude frequency phase \<Rightarrow>
          rnd (amplitude * cos_d (rnd (rnd (rnd (TWO_PI_d * frequency) * t)
                                         + rnd (phase * DEG_TO_RAD_d))))
      | SquareWave amplitude frequency phase \<Rightarrow>
          (let arg = rnd (rnd (rnd (TWO_PI_d * frequency) * t) + rnd (phase * DEG_TO_RAD_d))
           in rnd (amplitude * (if sin_d arg \<ge> 0 then 1 else - 1)))
      | TriangularWave amplitude frequency phase \<Rightarrow>
          (let arg = rnd (rnd (frequency * t) + rnd (phase / 360));
               fractional_part = rnd (arg - of_int \<lfloor>arg\<rfloor>)
           in if fractional_part < 0.25
                then rnd (rnd (amplitude * 4) * fractional_part)
              else if fractional_part < 0.75
                then rnd (amplitude * rnd (2 - rnd (4 * fractional_part)))
              else rnd (amplitude * rnd (rnd (4 * fractional_part) - 4)))
      | SawtoothWave amplitude frequency phase \<Rightarrow>
          (let arg = rnd (rnd (frequency * t) + rnd (phase / 360));
               fractional_part = rnd (arg - of_int \<lfloor>arg\<rfloor>)
           in rnd (amplitude * rnd (rnd (2 * fractional_part) - 1))))"

text \<open>
  A function of the source that calls \<^verbatim>\<open>evaluate\<close> through a \<^verbatim>\<open>WaveFunction\<close> reference
  takes the method as its parameter \<open>ev\<close>, of type \<open>WaveFunction \<Rightarrow> real \<Rightarrow> real \<Rightarrow> real\<close>
  (wave, position, time): the program runs it with \<open>ev = evaluate sin_d cos_d\<close>.
\<close>

section \<open>WaveEngine.h, WaveEngine.cpp\<close>

text \<open>
  The engine owns its waves in a \<^verbatim>\<open>std::vector\<close>, in insertion order; the index is the
  only handle. A \<^verbatim>\<open>const WaveFunction*\<close> result is an option: \<^verbatim>\<open>nullptr\<close> is \<open>None\<close>.
  The members \<^verbatim>\<open>waves_\<close>, \<^verbatim>\<open>velocity_\<close> and \<^verbatim>\<open>currentTime_\<close> lose their trailing
  underscore, which an Isabelle name cannot end with.
\<close>

record WaveEngine =
  waves :: "WaveFunction list"
  velocity :: real
  currentTime :: real

definition addWave :: "WaveEngine \<Rightarrow> WaveFunction \<Rightarrow> WaveEngine" where
  "addWave e wave = e\<lparr>waves := waves e @ [wave]\<rparr>"

text \<open>\<^verbatim>\<open>waves_.erase(waves_.begin() + index)\<close> under the guard \<^verbatim>\<open>index < waves_.size()\<close>.\<close>

definition removeWave :: "WaveEngine \<Rightarrow> nat \<Rightarrow> WaveEngine" where
  "removeWave e index =
     (if index < length (waves e)
      then e\<lparr>waves := take index (waves e) @ drop (Suc index) (waves e)\<rparr>
      else e)"

definition clearWaves :: "WaveEngine \<Rightarrow> WaveEngine" where
  "clearWaves e = e\<lparr>waves := []\<rparr>"

definition getWave :: "WaveEngine \<Rightarrow> nat \<Rightarrow> WaveFunction option" where
  "getWave e index =
     (if index < length (waves e) then Some (waves e ! index) else None)"

definition evaluateSuperposition ::
  "(WaveFunction \<Rightarrow> real \<Rightarrow> real \<Rightarrow> real) \<Rightarrow> WaveEngine \<Rightarrow> real \<Rightarrow> real \<Rightarrow> real" where
  "evaluateSuperposition ev e x t =
     fold (\<lambda>wave result. rnd (result + ev wave x t)) (waves e) 0"

text \<open>\<^verbatim>\<open>maxAmp = std::max(maxAmp, wave->getAmplitude())\<close>, starting from \<open>0.0\<close>.\<close>

definition getMaxAmplitude :: "WaveEngine \<Rightarrow> real" where
  "getMaxAmplitude e =
     fold (\<lambda>wave maxAmp. max maxAmp (getAmplitude wave)) (waves e) 0"

subsection \<open>Beat frequency and phenomenon\<close>

text \<open>
  \<^verbatim>\<open>std::numeric_limits<double>::max()\<close>, the largest finite \<^verbatim>\<open>double\<close>:
  \<open>(2 - 2\<^sup>-\<^sup>5\<^sup>2) * 2\<^sup>1\<^sup>0\<^sup>2\<^sup>3\<close>.
\<close>

definition DBL_MAX :: real where
  "DBL_MAX = 2 ^ 1024 - 2 ^ 971"

text \<open>
  \<^verbatim>\<open>calculateBeatFrequency\<close>: the frequencies are sorted ascending; \<open>minDiff\<close> starts at
  \<open>DBL_MAX\<close> and takes every difference of neighbours (a \<open>double\<close> subtraction, hence
  rounded) that is positive and smaller; the result is \<open>minDiff\<close> if it went below
  \<open>DBL_MAX\<close>, and \<open>0.0\<close> otherwise.
\<close>

definition beat_step :: "real list \<Rightarrow> nat \<Rightarrow> real \<Rightarrow> real" where
  "beat_step frequencies i minDiff =
     (let diff = rnd (frequencies ! i - frequencies ! (i - 1))
      in if diff > 0 \<and> diff < minDiff then diff else minDiff)"

definition calculateBeatFrequency :: "WaveEngine \<Rightarrow> real" where
  "calculateBeatFrequency e =
     (if length (waves e) < 2 then 0
      else
        (let frequencies = sort (map getFrequency (waves e));
             minDiff = fold (beat_step frequencies) [1..<length frequencies] DBL_MAX
         in if minDiff < DBL_MAX then minDiff else 0))"

text \<open>
  \<^verbatim>\<open>detectPhenomenon\<close>: the two nested loops over \<open>i < j\<close> set \<open>hasResonance\<close> and
  break as soon as \<^verbatim>\<open>std::abs(frequencies[i] - frequencies[j]) < 0.01\<close>, a rounded
  difference compared with the \<open>double\<close> nearest to \<open>0.01\<close>.
\<close>

definition hasResonance :: "real list \<Rightarrow> bool" where
  "hasResonance frequencies =
     list_ex (\<lambda>i. list_ex (\<lambda>j. \<bar>rnd (frequencies ! i - frequencies ! j)\<bar> < rnd 0.01)
                     [i + 1..<length frequencies])
       [0..<length frequencies]"

definition detectPhenomenon :: "WaveEngine \<Rightarrow> string" where
  "detectPhenomenon e =
     (if length (waves e) = 0 then ''No waves''
      else if length (waves e) = 1 then ''Single wave''
      else
        (let beatFreq = calculateBeatFrequency e
         in if beatFreq > 0 \<and> beatFreq < 2 then ''Beating''
            else if hasResonance (map getFrequency (waves e)) then ''Resonance''
            else ''Superposition''))"


subsection \<open>Reference: the beat frequency as described\<close>



section \<open>FourierAnalyzer.h, FourierAnalyzer.cpp\<close>

subsection \<open>struct Complex\<close>

text \<open>
  The repository's own complex value type, with its members \<^verbatim>\<open>real\<close> and \<^verbatim>\<open>imag\<close>
  (suffixed here: both names are taken in HOL) and its operators.
\<close>

record Complex_c =
  real_c :: real
  imag_c :: real

definition Complex_add :: "Complex_c \<Rightarrow> Complex_c \<Rightarrow> Complex_c" where
  "Complex_add a other =
     \<lparr>real_c = real_c a + real_c other, imag_c = imag_c a + imag_c other\<rparr>"

definition Complex_sub :: "Complex_c \<Rightarrow> Complex_c \<Rightarrow> Complex_c" where
  "Complex_sub a other =
     \<lparr>real_c = real_c a - real_c other, imag_c = imag_c a - imag_c other\<rparr>"

definition Complex_mul :: "Complex_c \<Rightarrow> Complex_c \<Rightarrow> Complex_c" where
  "Complex_mul a other =
     \<lparr>real_c = real_c a * real_c other - imag_c a * imag_c other,
      imag_c = real_c a * imag_c other + imag_c a * real_c other\<rparr>"

definition magnitude_c :: "Complex_c \<Rightarrow> real" where
  "magnitude_c a = sqrt (real_c a * real_c a + imag_c a * imag_c a)"

text \<open>
  \<^verbatim>\<open>std::atan2(y, x)\<close> of the C library, on finite arguments (a signed zero is not
  told apart from zero).
\<close>

definition atan2 :: "real \<Rightarrow> real \<Rightarrow> real" where
  "atan2 y x =
     (if 0 < x then arctan (y / x)
      else if x < 0 then (if 0 \<le> y then arctan (y / x) + pi else arctan (y / x) - pi)
      else if 0 < y then pi / 2
      else if y < 0 then - (pi / 2)
      else 0)"

definition phase_c :: "Complex_c \<Rightarrow> real" where
  "phase_c a = atan2 (imag_c a) (real_c a)"

definition Complex_zero :: Complex_c where
  "Complex_zero = \<lparr>real_c = 0, imag_c = 0\<rparr>"

subsection \<open>nextPowerOfTwo\<close>

text \<open>
  \<^verbatim>\<open>while (power < n) power *= 2\<close>, entered with \<open>power = 1\<close>. The argument is the
  size of a \<^verbatim>\<open>std::vector<double>\<close>, which is below \<open>2 ^ 61\<close>, so the doubling never
  wraps and \<open>power\<close> (here \<open>pwr\<close>) stays positive; \<open>0 < pwr\<close> stands in the guard
  only to make the recursion well-founded.
\<close>

function nextPowerOfTwo_loop :: "nat \<Rightarrow> nat \<Rightarrow> nat" where
  "nextPowerOfTwo_loop pwr n =
     (if pwr < n \<and> 0 < pwr then nextPowerOfTwo_loop (pwr * 2) n else pwr)"
  by pat_completeness auto
termination
  by (relation "measure (\<lambda>(pwr, n). n - pwr)") auto

declare nextPowerOfTwo_loop.simps [simp del]

definition nextPowerOfTwo :: "nat \<Rightarrow> nat" where
  "nextPowerOfTwo n = (if n \<le> 1 then 1 else nextPowerOfTwo_loop 1 n)"

subsection \<open>fftRecursive\<close>

text \<open>
  The divide loop \<^verbatim>\<open>for (i = 0; i < n; i += 2)\<close> pushes \<open>x[i]\<close> to \<open>even\<close> and, when
  \<open>i + 1 < n\<close>, \<open>x[i + 1]\<close> to \<open>odd\<close>.
\<close>

fun even_part :: "'a list \<Rightarrow> 'a list" where
  "even_part [] = []"
| "even_part [a] = [a]"
| "even_part (a # b # rest) = a # even_part rest"

fun odd_part :: "'a list \<Rightarrow> 'a list" where
  "odd_part [] = []"
| "odd_part [a] = []"
| "odd_part (a # b # rest) = b # odd_part rest"

text \<open>
  The combine loop: \<open>result\<close> is created with \<open>n\<close> zero entries, and step \<open>k\<close>
  (for \<open>k < n / 2\<close>) stores \<open>evenFFT[k] + t\<close> at \<open>k\<close> and \<open>evenFFT[k] - t\<close> at
  \<open>k + n / 2\<close>, where \<open>t = w * oddFFT[k]\<close> and \<open>w\<close> is the twiddle factor of angle
  \<open>- TWO_PI * k / n\<close>.
\<close>

definition twiddle :: "nat \<Rightarrow> nat \<Rightarrow> Complex_c" where
  "twiddle k n =
     (let angle = - TWO_PI * real k / real n
      in \<lparr>real_c = cos angle, imag_c = sin angle\<rparr>)"

definition combine_step ::
  "nat \<Rightarrow> Complex_c list \<Rightarrow> Complex_c list \<Rightarrow> nat \<Rightarrow> Complex_c list \<Rightarrow> Complex_c list" where
  "combine_step n evenFFT oddFFT k result =
     (let w = twiddle k n;
          t = Complex_mul w (oddFFT ! k)
      in (result[k := Complex_add (evenFFT ! k) t])
           [k + n div 2 := Complex_sub (evenFFT ! k) t])"

definition combine :: "nat \<Rightarrow> Complex_c list \<Rightarrow> Complex_c list \<Rightarrow> Complex_c list" where
  "combine n evenFFT oddFFT =
     fold (combine_step n evenFFT oddFFT) [0..<n div 2] (replicate n Complex_zero)"

lemma length_even_part: "length (even_part x) = (length x + 1) div 2"
  by (induction x rule: even_part.induct) simp_all

lemma length_odd_part: "length (odd_part x) = length x div 2"
  by (induction x rule: odd_part.induct) simp_all

function fftRecursive :: "Complex_c list \<Rightarrow> Complex_c list" where
  "fftRecursive x =
     (if length x \<le> 1 then x
      else combine (length x) (fftRecursive (even_part x)) (fftRecursive (odd_part x)))"
  by pat_completeness auto
termination
  by (relation "measure length") (auto simp: length_even_part length_odd_part)

declare fftRecursive.simps [simp del]

subsection \<open>fft and ifft\<close>

text \<open>\<^verbatim>\<open>std::vector::resize(n, v)\<close>: cut to \<open>n\<close> entries, or filled up with \<open>v\<close>.\<close>

definition resize :: "'a list \<Rightarrow> nat \<Rightarrow> 'a \<Rightarrow> 'a list" where
  "resize xs n v = take n xs @ replicate (n - length xs) v"

definition fft :: "real list \<Rightarrow> Complex_c list" where
  "fft signal =
     (let complexSignal = map (\<lambda>val. \<lparr>real_c = val, imag_c = 0\<rparr>) signal;
          n = nextPowerOfTwo (length signal)
      in fftRecursive (resize complexSignal n Complex_zero))"

definition ifft :: "Complex_c list \<Rightarrow> Complex_c list" where
  "ifft spectrum =
     (let conjugated = map (\<lambda>c. \<lparr>real_c = real_c c, imag_c = - imag_c c\<rparr>) spectrum;
          result = fftRecursive conjugated;
          n = real (length result)
      in map (\<lambda>c. \<lparr>real_c = real_c c / n, imag_c = - imag_c c / n\<rparr>) result)"

subsection \<open>Reference: the discrete Fourier transform\<close>



subsection \<open>The transform in double arithmetic\<close>











subsection \<open>Spectrum records\<close>

text \<open>
  \<^verbatim>\<open>struct FrequencyBin\<close>, \<^verbatim>\<open>struct Harmonic\<close> and \<^verbatim>\<open>struct FrequencySpectrum\<close>. The
  members of \<^verbatim>\<open>Harmonic\<close> carry the suffix \<open>_h\<close>, since a field name is a constant
  of the theory and \<^verbatim>\<open>frequency\<close> and \<^verbatim>\<open>phase\<close> are members of \<^verbatim>\<open>FrequencyBin\<close> too.
\<close>

record FrequencyBin =
  frequency :: real
  magnitude :: real
  phase :: real

record Harmonic =
  frequency_h :: real
  amplitude_h :: real
  phase_h :: real
  order_h :: int

record FrequencySpectrum =
  bins :: "FrequencyBin list"
  sampleRate :: real
  frequencyResolution :: real
  maxFrequency :: real
  harmonics :: "Harmonic list"

subsection \<open>findHarmonics\<close>

text \<open>
  The first loop, over the bins \<open>1, 2, \<dots>\<close> (the DC bin is skipped): the pair
  \<open>(maxMagnitude, fundamentalFreq)\<close> starts at \<open>(0.0, 0.0)\<close> and is replaced by a bin's
  magnitude and frequency whenever that magnitude is strictly larger.
\<close>

definition fundamental_step :: "FrequencyBin \<Rightarrow> real \<times> real \<Rightarrow> real \<times> real" where
  "fundamental_step b acc =
     (if magnitude b > fst acc then (magnitude b, frequency b) else acc)"

definition find_fundamental :: "FrequencySpectrum \<Rightarrow> real \<times> real" where
  "find_fundamental spectrum = fold fundamental_step (tl (bins spectrum)) (0, 0)"

text \<open>
  The inner loop: \<open>(closestBin, minDistance)\<close> starts at bin \<open>0\<close> and moves to bin \<open>i\<close>
  whenever its distance to the target is strictly smaller. It is only run on a spectrum
  that has a bin.
\<close>

definition closest_step ::
  "FrequencySpectrum \<Rightarrow> real \<Rightarrow> nat \<Rightarrow> nat \<times> real \<Rightarrow> nat \<times> real" where
  "closest_step spectrum targetFreq i acc =
     (let distance = \<bar>frequency (bins spectrum ! i) - targetFreq\<bar>
      in if distance < snd acc then (i, distance) else acc)"

definition find_closest :: "FrequencySpectrum \<Rightarrow> real \<Rightarrow> nat \<times> real" where
  "find_closest spectrum targetFreq =
     fold (closest_step spectrum targetFreq) [1..<length (bins spectrum)]
       (0, \<bar>frequency (bins spectrum ! 0) - targetFreq\<bar>)"

text \<open>
  The loop \<^verbatim>\<open>for (int order = 1; order <= 10; ++order)\<close> with its \<^verbatim>\<open>break\<close> once the
  target frequency exceeds \<open>maxFrequency\<close>; \<open>acc\<close> is the vector \<open>harmonics\<close>.
\<close>

function harmonics_loop ::
  "FrequencySpectrum \<Rightarrow> real \<Rightarrow> real \<Rightarrow> real \<Rightarrow> int \<Rightarrow> Harmonic list \<Rightarrow> Harmonic list" where
  "harmonics_loop spectrum threshold fundamentalFreq toleranceHz ord acc =
     (if ord \<le> 10 then
        (let targetFreq = of_int ord * fundamentalFreq
         in if targetFreq > maxFrequency spectrum then acc
            else
              (let (closestBin, minDistance) = find_closest spectrum targetFreq;
                   acc' =
                     (if minDistance \<le> toleranceHz \<and>
                         magnitude (bins spectrum ! closestBin) \<ge> threshold
                      then acc @ [\<lparr>frequency_h = frequency (bins spectrum ! closestBin),
                                   amplitude_h = magnitude (bins spectrum ! closestBin),
                                   phase_h = phase (bins spectrum ! closestBin),
                                   order_h = ord\<rparr>]
                      else acc)
               in harmonics_loop spectrum threshold fundamentalFreq toleranceHz (ord + 1) acc'))
      else acc)"
  by pat_completeness auto
termination
  by (relation "measure (\<lambda>(spectrum, threshold, fundamentalFreq, toleranceHz, ord, acc). nat (11 - ord))")
     auto

declare harmonics_loop.simps [simp del]

definition findHarmonics :: "FrequencySpectrum \<Rightarrow> real \<Rightarrow> Harmonic list" where
  "findHarmonics spectrum threshold =
     (if bins spectrum = [] then []
      else
        (let (maxMagnitude, fundamentalFreq) = find_fundamental spectrum
         in if fundamentalFreq = 0 \<or> maxMagnitude < threshold then []
            else
              (let toleranceHz = frequencyResolution spectrum * 2
               in harmonics_loop spectrum threshold fundamentalFreq toleranceHz 1 [])))"

subsection \<open>applyWindow and getSpectrum\<close>

text \<open>
  \<^verbatim>\<open>applyWindow\<close> multiplies sample \<open>i\<close> by the window coefficient. For a signal of one
  sample the quotient \<open>i / (n - 1)\<close> is \<open>0 / 0\<close>: a NaN in the source, \<open>0\<close> in HOL; no
  statement below depends on the value of a coefficient.
\<close>

definition window_coefficient :: "string \<Rightarrow> nat \<Rightarrow> nat \<Rightarrow> real" where
  "window_coefficient windowType i n =
     (if windowType = ''hanning'' then 0.5 - 0.5 * cos (TWO_PI * real i / real (n - 1))
      else if windowType = ''hamming'' then 0.54 - 0.46 * cos (TWO_PI * real i / real (n - 1))
      else if windowType = ''blackman''
        then 0.42 - 0.5 * cos (TWO_PI * real i / real (n - 1))
                  + 0.08 * cos (4 * PI * real i / real (n - 1))
      else 1)"

definition applyWindow :: "real list \<Rightarrow> string \<Rightarrow> real list" where
  "applyWindow signal windowType =
     map (\<lambda>i. signal ! i * window_coefficient windowType i (length signal))
       [0..<length signal]"

text \<open>
  A default-constructed \<^verbatim>\<open>FrequencySpectrum\<close> has empty vectors; its three
  \<^verbatim>\<open>double\<close> members are left uninitialised by the source and read as \<open>0\<close> here.
\<close>

definition FrequencySpectrum_default :: FrequencySpectrum where
  "FrequencySpectrum_default =
     \<lparr>bins = [], sampleRate = 0, frequencyResolution = 0, maxFrequency = 0, harmonics = []\<rparr>"

definition spectrum_bin :: "Complex_c list \<Rightarrow> real \<Rightarrow> nat \<Rightarrow> FrequencyBin" where
  "spectrum_bin fftResult resolution i =
     (let fftSize = length fftResult;
          freq = real i * resolution;
          mag = magnitude_c (fftResult ! i);
          ph = phase_c (fftResult ! i);
          mag' = (if i > 0 \<and> i < fftSize div 2 then mag * (2 / real fftSize)
                  else mag / real fftSize)
      in \<lparr>frequency = freq, magnitude = mag', phase = ph\<rparr>)"

definition getSpectrum :: "real list \<Rightarrow> real \<Rightarrow> FrequencySpectrum" where
  "getSpectrum signal rate =
     (if signal = [] then FrequencySpectrum_default
      else
        (let windowedSignal = applyWindow signal ''hanning'';
             fftResult = fft windowedSignal;
             fftSize = length fftResult;
             resolution = rate / real fftSize;
             numBins = fftSize div 2 + 1;
             spectrum =
               \<lparr>bins = map (spectrum_bin fftResult resolution) [0..<numBins],
                sampleRate = rate,
                frequencyResolution = resolution,
                maxFrequency = rate / 2,
                harmonics = []\<rparr>
         in spectrum\<lparr>harmonics := findHarmonics spectrum 0.1\<rparr>))"

subsection \<open>Reference: what findHarmonics is to compute\<close>







subsection \<open>Filters\<close>

text \<open>
  The filters index the spectrum with \<^verbatim>\<open>size_t\<close> values computed from the arguments.
  \<^verbatim>\<open>operator[]\<close> of \<^verbatim>\<open>std::vector\<close> does not check its index: an access at or beyond
  \<open>size()\<close> is undefined behaviour, the fault \<open>OutOfBounds\<close> of the model. The
  conversion \<^verbatim>\<open>static_cast<size_t>(double)\<close> truncates towards zero and is undefined
  outside the range of \<^verbatim>\<open>size_t\<close> (fault \<open>UndefinedCast\<close>); a division by a zero
  sample rate gives an infinity or a NaN, which is outside that range.
\<close>

datatype fault = OutOfBounds | UndefinedCast

definition write_at :: "'a list \<Rightarrow> nat \<Rightarrow> 'a \<Rightarrow> fault + 'a list" where
  "write_at xs i v = (if i < length xs then Inr (xs[i := v]) else Inl OutOfBounds)"

definition to_size_t :: "real \<Rightarrow> nat option" where
  "to_size_t v = (if - 1 < v \<and> v < 2 ^ 64 then Some (nat \<lfloor>v\<rfloor>) else None)"

definition frequency_bin :: "real \<Rightarrow> nat \<Rightarrow> real \<Rightarrow> nat option" where
  "frequency_bin freq n rate =
     (if rate = 0 then None else to_size_t (freq * real n / rate))"

text \<open>Subtraction of two \<^verbatim>\<open>size_t\<close> values, modulo \<open>2 ^ 64\<close>.\<close>

definition size_t_minus :: "nat \<Rightarrow> nat \<Rightarrow> nat" where
  "size_t_minus a b = (a + 2 ^ 64 - b) mod 2 ^ 64"

lemma write_at_Inr:
  "write_at xs i v = Inr ys \<Longrightarrow> i < length xs \<and> length ys = length xs"
  by (auto simp: write_at_def split: if_splits)

text \<open>
  \<^verbatim>\<open>lowPassFilter\<close>: \<^verbatim>\<open>for (i = cutoffBin; i < spectrum.size() - cutoffBin; ++i)
  spectrum[i] = 0\<close>; \<open>bound\<close> is the value of \<^verbatim>\<open>spectrum.size() - cutoffBin\<close>.
\<close>

function lowPass_loop :: "Complex_c list \<Rightarrow> nat \<Rightarrow> nat \<Rightarrow> fault + Complex_c list" where
  "lowPass_loop spectrum bound i =
     (if i < bound then
        (case write_at spectrum i Complex_zero of
           Inl e \<Rightarrow> Inl e
         | Inr spectrum' \<Rightarrow> lowPass_loop spectrum' bound (i + 1))
      else Inr spectrum)"
  by pat_completeness auto
termination
  by (relation "measure (\<lambda>(spectrum, bound, i). length spectrum - i)")
     (auto dest: write_at_Inr)

declare lowPass_loop.simps [simp del]

text \<open>
  \<^verbatim>\<open>highPassFilter\<close>: \<^verbatim>\<open>for (i = 0; i <= cutoffBin; ++i)\<close>, which zeroes
  \<open>spectrum[i]\<close> and, for \<open>i > 0\<close>, \<open>spectrum[spectrum.size() - i]\<close>.
\<close>

definition highPass_step :: "Complex_c list \<Rightarrow> nat \<Rightarrow> fault + Complex_c list" where
  "highPass_step spectrum i =
     (case write_at spectrum i Complex_zero of
        Inl e \<Rightarrow> Inl e
      | Inr spectrum' \<Rightarrow>
          if i > 0 then write_at spectrum' (size_t_minus (length spectrum') i) Complex_zero
          else Inr spectrum')"

lemma highPass_step_Inr:
  "highPass_step xs i = Inr ys \<Longrightarrow> i < length xs \<and> length ys = length xs"
  by (auto simp: highPass_step_def split: sum.splits if_splits dest!: write_at_Inr)

function highPass_loop :: "Complex_c list \<Rightarrow> nat \<Rightarrow> nat \<Rightarrow> fault + Complex_c list" where
  "highPass_loop spectrum cutoffBin i =
     (if i \<le> cutoffBin then
        (case highPass_step spectrum i of
           Inl e \<Rightarrow> Inl e
         | Inr spectrum' \<Rightarrow> highPass_loop spectrum' cutoffBin (i + 1))
      else Inr spectrum)"
  by pat_completeness auto
termination
  by (relation "measure (\<lambda>(spectrum, cutoffBin, i). length spectrum - i)")
     (auto dest: highPass_step_Inr)

declare highPass_loop.simps [simp del]

text \<open>
  \<^verbatim>\<open>bandPassFilter\<close>: for every index \<open>i\<close> of the spectrum, the entry is zeroed when
  \<open>i < lowBin || i > highBin\<close>, unless
  \<open>i > spectrum.size() - highBin && i < spectrum.size() - lowBin\<close> (the source's
  \<^verbatim>\<open>// Handle symmetric spectrum\<close>, \<^verbatim>\<open>continue; // Keep this frequency\<close>).
\<close>

definition bandPass_zeroes :: "nat \<Rightarrow> nat \<Rightarrow> nat \<Rightarrow> nat \<Rightarrow> bool" where
  "bandPass_zeroes n lowBin highBin i \<longleftrightarrow>
     (i < lowBin \<or> i > highBin) \<and>
     \<not> (i > size_t_minus n highBin \<and> i < size_t_minus n lowBin)"

function bandPass_loop ::
  "Complex_c list \<Rightarrow> nat \<Rightarrow> nat \<Rightarrow> nat \<Rightarrow> fault + Complex_c list" where
  "bandPass_loop spectrum lowBin highBin i =
     (if i < length spectrum then
        (if bandPass_zeroes (length spectrum) lowBin highBin i then
           (case write_at spectrum i Complex_zero of
              Inl e \<Rightarrow> Inl e
            | Inr spectrum' \<Rightarrow> bandPass_loop spectrum' lowBin highBin (i + 1))
         else bandPass_loop spectrum lowBin highBin (i + 1))
      else Inr spectrum)"
  by pat_completeness auto
termination
  by (relation "measure (\<lambda>(spectrum, lowBin, highBin, i). length spectrum - i)")
     (auto dest: write_at_Inr)

declare bandPass_loop.simps [simp del]

text \<open>
  Each filter is: transform, zero entries (\<open>_spectrum\<close>), inverse transform and keep
  the real components.
\<close>

definition to_time_domain :: "fault + Complex_c list \<Rightarrow> fault + real list" where
  "to_time_domain r = (case r of Inl e \<Rightarrow> Inl e | Inr spectrum \<Rightarrow> Inr (map real_c (ifft spectrum)))"

definition lowPass_spectrum :: "real list \<Rightarrow> real \<Rightarrow> real \<Rightarrow> fault + Complex_c list" where
  "lowPass_spectrum signal cutoffFreq rate =
     (let spectrum = fft signal
      in case frequency_bin cutoffFreq (length spectrum) rate of
           None \<Rightarrow> Inl UndefinedCast
         | Some cutoffBin \<Rightarrow>
             lowPass_loop spectrum (size_t_minus (length spectrum) cutoffBin) cutoffBin)"

definition lowPassFilter :: "real list \<Rightarrow> real \<Rightarrow> real \<Rightarrow> fault + real list" where
  "lowPassFilter signal cutoffFreq rate = to_time_domain (lowPass_spectrum signal cutoffFreq rate)"

definition highPass_spectrum :: "real list \<Rightarrow> real \<Rightarrow> real \<Rightarrow> fault + Complex_c list" where
  "highPass_spectrum signal cutoffFreq rate =
     (let spectrum = fft signal
      in case frequency_bin cutoffFreq (length spectrum) rate of
           None \<Rightarrow> Inl UndefinedCast
         | Some cutoffBin \<Rightarrow> highPass_loop spectrum cutoffBin 0)"

definition highPassFilter :: "real list \<Rightarrow> real \<Rightarrow> real \<Rightarrow> fault + real list" where
  "highPassFilter signal cutoffFreq rate = to_time_domain (highPass_spectrum signal cutoffFreq rate)"

definition bandPass_spectrum :: "real list \<Rightarrow> real \<Rightarrow> real \<Rightarrow> real \<Rightarrow> fault + Complex_c list" where
  "bandPass_spectrum signal lowFreq highFreq rate =
     (let spectrum = fft signal
      in case frequency_bin lowFreq (length spectrum) rate of
           None \<Rightarrow> Inl UndefinedCast
         | Some lowBin \<Rightarrow>
             (case frequency_bin highFreq (length spectrum) rate of
                None \<Rightarrow> Inl UndefinedCast
              | Some highBin \<Rightarrow> bandPass_loop spectrum lowBin highBin 0))"

definition bandPassFilter :: "real list \<Rightarrow> real \<Rightarrow> real \<Rightarrow> real \<Rightarrow> fault + real list" where
  "bandPassFilter signal lowFreq highFreq rate =
     to_time_domain (bandPass_spectrum signal lowFreq highFreq rate)"

section \<open>InterferenceCalculator.h, InterferenceCalculator.cpp\<close>

text \<open>
  \<^verbatim>\<open>struct InterferenceResult\<close> and \<^verbatim>\<open>struct InterferenceNode\<close>, their members suffixed
  \<open>_r\<close> and \<open>_n\<close> where the name is taken. The member \<^verbatim>\<open>description\<close>, a text
  that prints \<^verbatim>\<open>double\<close> values through a stream, is left out.
\<close>

datatype InterferenceType = CONSTRUCTIVE | DESTRUCTIVE | PARTIAL | NO_INTERFERENCE

datatype NodeType = NODE | ANTINODE

record InterferenceNode =
  position_n :: real
  amplitude_n :: real
  type_n :: NodeType

record InterferenceResult =
  type_r :: InterferenceType
  amplitude_r :: real
  phase_r :: real
  nodePositions :: "real list"
  antinodePositions :: "real list"
  beatFrequency :: real

text \<open>
  What \<^verbatim>\<open>calculateTwoWaveInterference\<close> does outside its intended range:
  \<^verbatim>\<open>reserve\<close> of a negative \<^verbatim>\<open>int\<close> (a huge \<^verbatim>\<open>size_t\<close>) throws
  \<^verbatim>\<open>std::length_error\<close>, and with no sample the result of \<^verbatim>\<open>std::minmax_element\<close>
  is the end iterator, which is dereferenced.
\<close>

datatype ic_fault = LengthError | EndDereferenced

text \<open>
  Every arithmetic operation of the source on \<^verbatim>\<open>double\<close> values is followed by \<open>rnd\<close>;
  \<^verbatim>\<open>std::abs\<close>, comparisons and the conversion of an \<^verbatim>\<open>int\<close> to \<^verbatim>\<open>double\<close> are exact.
  The literals \<^verbatim>\<open>0.1\<close> and \<^verbatim>\<open>360.0\<close> are the \<^verbatim>\<open>double\<close> values \<open>rnd 0.1\<close> and \<open>360\<close>.
\<close>

definition calculateBeatFrequency_ic :: "real \<Rightarrow> real \<Rightarrow> real" where
  "calculateBeatFrequency_ic f1 f2 = \<bar>rnd (f1 - f2)\<bar>"

definition calculateTotalAmplitude ::
  "(WaveFunction \<Rightarrow> real \<Rightarrow> real \<Rightarrow> real) \<Rightarrow> WaveFunction list \<Rightarrow> real \<Rightarrow> real \<Rightarrow> real" where
  "calculateTotalAmplitude ev ws pos time =
     fold (\<lambda>wave total. rnd (total + ev wave pos time)) ws 0"

definition classifyInterference :: "real \<Rightarrow> real \<Rightarrow> real \<Rightarrow> real \<Rightarrow> InterferenceType" where
  "classifyInterference amplitude1 amplitude2 resultAmplitude tolerance =
     (let maxPossible = rnd (amplitude1 + amplitude2);
          minPossible = \<bar>rnd (amplitude1 - amplitude2)\<bar>
      in if resultAmplitude \<ge> rnd (maxPossible - tolerance) then CONSTRUCTIVE
         else if resultAmplitude \<le> rnd (minPossible + tolerance) then DESTRUCTIVE
         else PARTIAL)"

text \<open>
  \<^verbatim>\<open>findLocalExtrema\<close> returns the indices \<open>1 \<le> i < size - 1\<close> of the strict local
  extrema (as \<^verbatim>\<open>double\<close> in the source, read back as \<^verbatim>\<open>int\<close> by the caller).
\<close>

definition findLocalExtrema :: "real list \<Rightarrow> bool \<Rightarrow> nat list" where
  "findLocalExtrema data findMaxima =
     (if length data < 3 then []
      else filter (\<lambda>i. if findMaxima then data ! i > data ! (i - 1) \<and> data ! i > data ! (i + 1)
                        else data ! i < data ! (i - 1) \<and> data ! i < data ! (i + 1))
             [1..<length data - 1])"

text \<open>
  The positions of the sampling loops: \<^verbatim>\<open>dx = length / (numPoints - 1)\<close>, then
  \<^verbatim>\<open>x = i * dx\<close> for \<open>i = 0, \<dots>, numPoints - 1\<close>. With \<open>numPoints = 1\<close> the source
  divides by zero, outside the range the statements below are about.
\<close>

definition sample_positions :: "real \<Rightarrow> int \<Rightarrow> real list" where
  "sample_positions len numPoints =
     (let dx = rnd (len / of_int (numPoints - 1))
      in map (\<lambda>i. rnd (real i * dx)) [0..<nat numPoints])"

definition findInterferenceNodes ::
  "(WaveFunction \<Rightarrow> real \<Rightarrow> real \<Rightarrow> real) \<Rightarrow> WaveFunction list \<Rightarrow> real \<Rightarrow> real \<Rightarrow> int \<Rightarrow> real
     \<Rightarrow> InterferenceNode list" where
  "findInterferenceNodes ev ws time len numPoints threshold =
     (let dx = rnd (len / of_int (numPoints - 1));
          amplitudes = map (\<lambda>x. \<bar>calculateTotalAmplitude ev ws x time\<bar>)
                         (sample_positions len numPoints);
          minima = findLocalExtrema amplitudes False;
          maxima = findLocalExtrema amplitudes True
      in map (\<lambda>idx. \<lparr>position_n = rnd (real idx * dx), amplitude_n = amplitudes ! idx,
                      type_n = NODE\<rparr>)
           (filter (\<lambda>idx. int idx < numPoints \<and> amplitudes ! idx \<le> threshold) minima)
         @
         map (\<lambda>idx. \<lparr>position_n = rnd (real idx * dx), amplitude_n = amplitudes ! idx,
                      type_n = ANTINODE\<rparr>)
           (filter (\<lambda>idx. int idx < numPoints \<and> amplitudes ! idx \<ge> threshold) maxima))"

text \<open>
  \<^verbatim>\<open>calculatePhaseShift\<close>: \<^verbatim>\<open>while (diff < 0) diff += 360.0\<close>, then
  \<^verbatim>\<open>while (diff >= 360.0) diff -= 360.0\<close>. In \<^verbatim>\<open>double\<close> arithmetic a step can leave
  \<open>diff\<close> unchanged, so a loop need not end: not returning is the value \<open>None\<close>.
\<close>

partial_function (option) normalize_up :: "real \<Rightarrow> real option" where
  "normalize_up diff = (if diff < 0 then normalize_up (rnd (diff + 360)) else Some diff)"

partial_function (option) normalize_down :: "real \<Rightarrow> real option" where
  "normalize_down diff = (if diff \<ge> 360 then normalize_down (rnd (diff - 360)) else Some diff)"

definition calculatePhaseShift :: "WaveFunction \<Rightarrow> WaveFunction \<Rightarrow> real option" where
  "calculatePhaseShift wave1 wave2 =
     (let phase1 = getPhase wave1;
          phase2 = getPhase wave2;
          diff = rnd (phase2 - phase1)
      in case normalize_up diff of
           None \<Rightarrow> None
         | Some diff' \<Rightarrow> normalize_down diff')"

text \<open>
  The sampling loop of \<^verbatim>\<open>calculateTwoWaveInterference\<close>: entry \<open>i\<close> pairs the position
  \<open>x = i * dx\<close> (vector \<open>positions\<close>) with the sum of both waves there (vector
  \<open>amplitudes\<close>).
\<close>

definition two_wave_samples ::
  "(WaveFunction \<Rightarrow> real \<Rightarrow> real \<Rightarrow> real) \<Rightarrow> WaveFunction \<Rightarrow> WaveFunction \<Rightarrow> real \<Rightarrow> real \<Rightarrow> int
     \<Rightarrow> (real \<times> real) list" where
  "two_wave_samples ev wave1 wave2 time len numPoints =
     map (\<lambda>x. let amp1 = ev wave1 x time;
                  amp2 = ev wave2 x time
              in (x, rnd (amp1 + amp2)))
       (sample_positions len numPoints)"

text \<open>
  The result is \<open>None\<close> when the call does not return, \<open>Some (Inl f)\<close> when it faults and
  \<open>Some (Inr r)\<close> when it returns \<open>r\<close>.
\<close>

definition calculateTwoWaveInterference ::
  "(WaveFunction \<Rightarrow> real \<Rightarrow> real \<Rightarrow> real) \<Rightarrow> WaveFunction \<Rightarrow> WaveFunction \<Rightarrow> real \<Rightarrow> real \<Rightarrow> int
     \<Rightarrow> (ic_fault + InterferenceResult) option" where
  "calculateTwoWaveInterference ev wave1 wave2 time len numPoints =
     (if numPoints < 0 then Some (Inl LengthError)
      else
        (let amplitudes = map snd (two_wave_samples ev wave1 wave2 time len numPoints)
         in if amplitudes = [] then Some (Inl EndDereferenced)
            else
              (let amp = max \<bar>Min (set amplitudes)\<bar> \<bar>Max (set amplitudes)\<bar>
               in case calculatePhaseShift wave1 wave2 of
                    None \<Rightarrow> None
                  | Some ph \<Rightarrow>
                      (let nodes = findInterferenceNodes ev [wave1, wave2] time len numPoints
                                     (rnd 0.1)
                       in Some (Inr
                            \<lparr>type_r = classifyInterference (getAmplitude wave1)
                                        (getAmplitude wave2) amp (rnd 0.1),
                             amplitude_r = amp,
                             phase_r = ph,
                             nodePositions =
                               map position_n (filter (\<lambda>node. type_n node = NODE) nodes),
                             antinodePositions =
                               map position_n (filter (\<lambda>node. type_n node \<noteq> NODE) nodes),
                             beatFrequency =
                               calculateBeatFrequency_ic (getFrequency wave1)
                                 (getFrequency wave2)\<rparr>)))))"


section \<open>Rounding to double precision: properties\<close>

lemma rnd_pos_window: "2 ^ 52 \<le> x \<Longrightarrow> x < 2 ^ 53 \<Longrightarrow> rnd_pos x = of_int (rne x)"
  by (subst rnd_pos.simps) (simp add: not_le)

lemma rnd_pos_up:
  "2 ^ 52 \<le> x * 2 ^ k \<Longrightarrow> x * 2 ^ k < 2 ^ 53 \<Longrightarrow> rnd_pos x = of_int (rne (x * 2 ^ k)) / 2 ^ k"
proof (induction k arbitrary: x)
  case 0
  then show ?case by (simp add: rnd_pos_window)
next
  case (Suc k)
  have pos: "0 < x"
  proof (rule ccontr)
    assume "\<not> 0 < x"
    then have "x * 2 ^ Suc k \<le> 0" by (simp add: mult_le_0_iff)
    with Suc.prems(1) show False by simp
  qed
  have lt: "x < 2 ^ 52"
  proof (rule ccontr)
    assume "\<not> x < 2 ^ 52"
    then have "2 ^ 52 * 2 \<le> x * 2 ^ Suc k"
      by (intro mult_mono) simp_all
    with Suc.prems(2) show False by simp
  qed
  have "rnd_pos x = rnd_pos (2 * x) / 2"
    using pos lt by (subst rnd_pos.simps) simp
  also have "rnd_pos (2 * x) = of_int (rne (2 * x * 2 ^ k)) / 2 ^ k"
    using Suc.prems by (intro Suc.IH) (simp_all add: mult_ac)
  finally show ?case by (simp add: mult_ac)
qed

lemma rnd_pos_down:
  "2 ^ 52 \<le> x / 2 ^ k \<Longrightarrow> x / 2 ^ k < 2 ^ 53 \<Longrightarrow> rnd_pos x = of_int (rne (x / 2 ^ k)) * 2 ^ k"
proof (induction k arbitrary: x)
  case 0
  then show ?case by (simp add: rnd_pos_window)
next
  case (Suc k)
  have ge: "2 ^ 53 \<le> x"
  proof -
    have "2 ^ 52 * 2 ^ Suc k \<le> x" using Suc.prems(1) by (simp add: field_simps)
    moreover have "(2::real) ^ 53 \<le> 2 ^ 52 * 2 ^ Suc k" by simp
    ultimately show ?thesis by linarith
  qed
  then have pos: "0 < x" by (simp add: less_le_trans [of 0 "2 ^ 53"])
  have "rnd_pos x = 2 * rnd_pos (x / 2)"
    using pos ge by (subst rnd_pos.simps) simp
  also have "rnd_pos (x / 2) = of_int (rne (x / 2 / 2 ^ k)) * 2 ^ k"
    using Suc.prems by (intro Suc.IH) (simp_all add: field_simps)
  finally show ?case by (simp add: field_simps)
qed


lemma rne_error: "\<bar>of_int (rne m) - m\<bar> \<le> 1 / 2"
proof -
  have "of_int \<lfloor>m\<rfloor> \<le> m" "m < of_int \<lfloor>m\<rfloor> + 1" by linarith+
  then show ?thesis by (auto simp: rne_def Let_def)
qed

lemma rne_cases: "rne m = \<lfloor>m\<rfloor> \<or> rne m = \<lfloor>m\<rfloor> + 1"
  by (simp add: rne_def Let_def)

lemma rne_ge_floor: "\<lfloor>m\<rfloor> \<le> rne m"
  using rne_cases [of m] by auto

lemma rne_of_int: "rne (of_int n) = n"
  by (simp add: rne_def Let_def)

lemma rne_mono: "a \<le> b \<Longrightarrow> rne a \<le> rne b"
proof -
  assume ab: "a \<le> b"
  then have fl: "\<lfloor>a\<rfloor> \<le> \<lfloor>b\<rfloor>" by (rule floor_mono)
  show ?thesis
  proof (cases "\<lfloor>a\<rfloor> = \<lfloor>b\<rfloor>")
    case True
    then have "a - of_int \<lfloor>a\<rfloor> \<le> b - of_int \<lfloor>b\<rfloor>" using ab by simp
    then show ?thesis using True by (auto simp: rne_def Let_def)
  next
    case False
    with fl have "\<lfloor>a\<rfloor> + 1 \<le> \<lfloor>b\<rfloor>" by simp
    then show ?thesis using rne_cases [of a] rne_ge_floor [of b] by linarith
  qed
qed

lemma rnd_pos_nonpos: "x \<le> 0 \<Longrightarrow> rnd_pos x = 0"
  by (subst rnd_pos.simps) simp

lemma rnd_pos_big: "2 ^ 53 \<le> x \<Longrightarrow> rnd_pos x = 2 * rnd_pos (x / 2)"
proof -
  assume a: "2 ^ 53 \<le> x"
  have "(0::real) < 2 ^ 53" by simp
  with a have "0 < x" by linarith
  with a show ?thesis by (subst rnd_pos.simps) simp
qed

lemma rnd_pos_small: "0 < x \<Longrightarrow> x < 2 ^ 52 \<Longrightarrow> rnd_pos x = rnd_pos (2 * x) / 2"
proof -
  assume a: "0 < x" "x < 2 ^ 52"
  have "(2::real) ^ 52 \<le> 2 ^ 53" by simp
  with a(2) have "\<not> 2 ^ 53 \<le> x" by linarith
  with a show ?thesis by (subst rnd_pos.simps) simp
qed

lemma rnd_pos_error: "0 \<le> x \<Longrightarrow> \<bar>rnd_pos x - x\<bar> \<le> x / 2 ^ 53"
proof (induction x rule: rnd_pos.induct)
  case (1 x)
  consider "x \<le> 0" | "2 ^ 53 \<le> x" | "0 < x" "x < 2 ^ 52" | "2 ^ 52 \<le> x" "x < 2 ^ 53"
    by linarith
  then show ?case
  proof cases
    case 1
    with "1.prems" show ?thesis by (simp add: rnd_pos_nonpos)
  next
    case 2
    then have p: "\<not> x \<le> 0" using less_le_trans [of 0 "2 ^ 53" x] by simp
    have "\<bar>rnd_pos (x / 2) - x / 2\<bar> \<le> x / 2 / 2 ^ 53"
      using "1.IH"(1) [OF p 2] "1.prems" by simp
    then show ?thesis unfolding rnd_pos_big [OF 2] by (simp add: field_simps abs_le_iff)
  next
    case 3
    then have p: "\<not> x \<le> 0" by simp
    have n: "\<not> 2 ^ 53 \<le> x" using 3(2) by simp
    have "\<bar>rnd_pos (2 * x) - 2 * x\<bar> \<le> 2 * x / 2 ^ 53"
      using "1.IH"(2) [OF p n 3(2)] "1.prems" by simp
    then show ?thesis unfolding rnd_pos_small [OF 3] by (simp add: field_simps abs_le_iff)
  next
    case 4
    have "(1::real) / 2 \<le> 2 ^ 52 / 2 ^ 53" by simp
    also have "\<dots> \<le> x / 2 ^ 53" using 4(1) by (intro divide_right_mono) simp_all
    finally have "1 / 2 \<le> x / 2 ^ 53" .
    with rne_error [of x] show ?thesis unfolding rnd_pos_window [OF 4] by linarith
  qed
qed

lemma rnd_pos_nonneg: "0 \<le> rnd_pos x"
proof (cases "x \<le> 0")
  case True
  then show ?thesis by (simp add: rnd_pos_nonpos)
next
  case False
  then have x: "0 \<le> x" by simp
  have "x / 2 ^ 53 \<le> x" using x by (simp add: field_simps)
  with rnd_pos_error [OF x] show ?thesis by linarith
qed

lemma rnd_pos_ge_52: "2 ^ 52 \<le> x \<Longrightarrow> 2 ^ 52 \<le> rnd_pos x"
proof (induction x rule: rnd_pos.induct)
  case (1 x)
  show ?case
  proof (cases "2 ^ 53 \<le> x")
    case True
    then have p: "\<not> x \<le> 0" using less_le_trans [of 0 "2 ^ 53" x] by simp
    have "2 ^ 52 \<le> rnd_pos (x / 2)" using "1.IH"(1) [OF p True] True by simp
    then show ?thesis unfolding rnd_pos_big [OF True] by simp
  next
    case False
    then have w: "x < 2 ^ 53" by simp
    have "of_int \<lfloor>x\<rfloor> \<le> (of_int (rne x) :: real)" using rne_ge_floor [of x] by simp
    moreover have "(2::real) ^ 52 \<le> of_int \<lfloor>x\<rfloor>"
    proof -
      have "(2::int) ^ 52 \<le> \<lfloor>x\<rfloor>" using "1.prems" by (simp add: le_floor_iff)
      then have "of_int ((2::int) ^ 52) \<le> (of_int \<lfloor>x\<rfloor> :: real)" by (simp only: of_int_le_iff)
      then show ?thesis by simp
    qed
    ultimately show ?thesis unfolding rnd_pos_window [OF "1.prems" w] by linarith
  qed
qed

lemma rnd_pos_ge_53: "2 ^ 53 \<le> x \<Longrightarrow> 2 ^ 53 \<le> rnd_pos x"
proof -
  assume a: "2 ^ 53 \<le> x"
  then have "2 ^ 52 \<le> rnd_pos (x / 2)" by (intro rnd_pos_ge_52) simp
  then show ?thesis unfolding rnd_pos_big [OF a] by simp
qed

lemma rnd_pos_le_53: "x < 2 ^ 53 \<Longrightarrow> rnd_pos x \<le> 2 ^ 53"
proof (induction x rule: rnd_pos.induct)
  case (1 x)
  consider "x \<le> 0" | "0 < x" "x < 2 ^ 52" | "2 ^ 52 \<le> x" "x < 2 ^ 53"
    using "1.prems" by linarith
  then show ?case
  proof cases
    case 1
    then show ?thesis by (simp add: rnd_pos_nonpos)
  next
    case 2
    then have p: "\<not> x \<le> 0" by simp
    have n: "\<not> 2 ^ 53 \<le> x" using "1.prems" by simp
    have "rnd_pos (2 * x) \<le> 2 ^ 53" using "1.IH"(2) [OF p n 2(2)] 2(2) by simp
    then show ?thesis unfolding rnd_pos_small [OF 2] by simp
  next
    case 3
    have "\<lfloor>x\<rfloor> < (2::int) ^ 53" using 3(2) by (simp add: floor_less_iff)
    then have "rne x \<le> (2::int) ^ 53" using rne_cases [of x] by linarith
    then have "(of_int (rne x) :: real) \<le> of_int ((2::int) ^ 53)" by (simp only: of_int_le_iff)
    then show ?thesis unfolding rnd_pos_window [OF 3] by simp
  qed
qed

lemma rnd_pos_le_52: "x \<le> 2 ^ 52 \<Longrightarrow> rnd_pos x \<le> 2 ^ 52"
proof -
  assume a: "x \<le> 2 ^ 52"
  consider "x \<le> 0" | "0 < x" "x < 2 ^ 52" | "x = 2 ^ 52" using a by linarith
  then show ?thesis
  proof cases
    case 1
    then show ?thesis by (simp add: rnd_pos_nonpos)
  next
    case 2
    have "rnd_pos (2 * x) \<le> 2 ^ 53" using 2(2) by (intro rnd_pos_le_53) simp
    then show ?thesis unfolding rnd_pos_small [OF 2] by simp
  next
    case 3
    have "rnd_pos (2 ^ 52) = of_int (rne (of_int (2 ^ 52)))"
      by (subst rnd_pos_window) simp_all
    then show ?thesis unfolding 3 rne_of_int by simp
  qed
qed

lemma rnd_pos_mono: "x \<le> y \<Longrightarrow> rnd_pos x \<le> rnd_pos y"
proof (induction x arbitrary: y rule: rnd_pos.induct)
  case (1 x)
  consider "x \<le> 0" | "2 ^ 53 \<le> x" | "0 < x" "x < 2 ^ 52" | "2 ^ 52 \<le> x" "x < 2 ^ 53"
    by linarith
  then show ?case
  proof cases
    case 1
    then show ?thesis using rnd_pos_nonneg [of y] by (simp add: rnd_pos_nonpos)
  next
    case 2
    then have p: "\<not> x \<le> 0" using less_le_trans [of 0 "2 ^ 53" x] by simp
    have y: "2 ^ 53 \<le> y" using 2 "1.prems" by linarith
    have "rnd_pos (x / 2) \<le> rnd_pos (y / 2)"
      using "1.IH"(1) [OF p 2, of "y / 2"] "1.prems" by simp
    then show ?thesis unfolding rnd_pos_big [OF 2] rnd_pos_big [OF y] by simp
  next
    case 3
    then have p: "\<not> x \<le> 0" by simp
    have n: "\<not> 2 ^ 53 \<le> x" using 3(2) by simp
    show ?thesis
    proof (cases "y < 2 ^ 52")
      case True
      have y: "0 < y" using 3(1) "1.prems" by linarith
      have "rnd_pos (2 * x) \<le> rnd_pos (2 * y)"
        using "1.IH"(2) [OF p n 3(2), of "2 * y"] "1.prems" by simp
      then show ?thesis unfolding rnd_pos_small [OF 3] rnd_pos_small [OF y True] by simp
    next
      case False
      then have "2 ^ 52 \<le> rnd_pos y" by (intro rnd_pos_ge_52) simp
      moreover have "rnd_pos x \<le> 2 ^ 52" using 3(2) by (intro rnd_pos_le_52) simp
      ultimately show ?thesis by linarith
    qed
  next
    case 4
    show ?thesis
    proof (cases "y < 2 ^ 53")
      case True
      have y: "2 ^ 52 \<le> y" using 4(1) "1.prems" by linarith
      have "rne x \<le> rne y" using "1.prems" by (rule rne_mono)
      then show ?thesis unfolding rnd_pos_window [OF 4] rnd_pos_window [OF y True] by simp
    next
      case False
      then have "2 ^ 53 \<le> rnd_pos y" by (intro rnd_pos_ge_53) simp
      moreover have "rnd_pos x \<le> 2 ^ 53" using 4(2) by (rule rnd_pos_le_53)
      ultimately show ?thesis by linarith
    qed
  qed
qed


lemma rnd_minus: "rnd (- x) = - rnd x"
  by (cases "x = 0") (auto simp: rnd_def rnd_pos_nonpos)

lemma rnd_mono: "x \<le> y \<Longrightarrow> rnd x \<le> rnd y"
proof -
  assume xy: "x \<le> y"
  consider "y < 0" | "x < 0" "0 \<le> y" | "0 \<le> x" by linarith
  then show ?thesis
  proof cases
    case 1
    then have "rnd_pos (- y) \<le> rnd_pos (- x)" using xy by (intro rnd_pos_mono) simp
    then show ?thesis using 1 xy by (simp add: rnd_def)
  next
    case 2
    then show ?thesis using rnd_pos_nonneg [of "- x"] rnd_pos_nonneg [of y] by (simp add: rnd_def)
  next
    case 3
    then show ?thesis using xy rnd_pos_mono [of x y] by (simp add: rnd_def)
  qed
qed





lemma rnd_1: "rnd 1 = 1"
  using rnd_pos_up [of 1 52] by (simp add: rnd_def rne_def)




lemma rnd_hundredth: "rnd 0.01 = 5764607523034235 / 2 ^ 59"
  using rnd_pos_up [of "0.01" 59] by (simp add: rnd_def rne_def)

subsection \<open>Values that are represented exactly\<close>











section \<open>Wave collection: index safety\<close>

lemma nth_erase_before:
  "j < index \<Longrightarrow> index < length ws \<Longrightarrow>
     (take index ws @ drop (Suc index) ws) ! j = ws ! j"
  by (simp add: nth_append)

lemma nth_erase_after:
  "index \<le> j \<Longrightarrow> Suc j < length ws \<Longrightarrow>
     (take index ws @ drop (Suc index) ws) ! j = ws ! Suc j"
  by (simp add: nth_append min_def)

text \<open>
  Claim C8. For every engine and index: an out-of-range index makes \<open>removeWave\<close> return
  the engine unchanged and \<open>getWave\<close> return the absent value; an in-range index makes
  \<open>removeWave\<close> drop exactly that wave (one wave fewer, the waves before it stay at
  their index, the waves after it move down by one, nothing else of the engine changes)
  and \<open>getWave\<close> return that wave.
\<close>

theorem removeWave_getWave_bounds_checked:
  "(length (waves e) \<le> i \<longrightarrow> removeWave e i = e \<and> getWave e i = None) \<and>
   (i < length (waves e) \<longrightarrow>
      getWave e i = Some (waves e ! i) \<and>
      Suc (length (waves (removeWave e i))) = length (waves e) \<and>
      (\<forall>j < i. waves (removeWave e i) ! j = waves e ! j) \<and>
      (\<forall>j. i \<le> j \<and> Suc j < length (waves e) \<longrightarrow>
           waves (removeWave e i) ! j = waves e ! Suc j) \<and>
      velocity (removeWave e i) = velocity e \<and>
      currentTime (removeWave e i) = currentTime e)"
proof (cases "i < length (waves e)")
  case True
  then show ?thesis
    using nth_erase_before [of _ i "waves e"] nth_erase_after [of i _ "waves e"]
    by (simp add: removeWave_def getWave_def)
next
  case False
  then show ?thesis
    by (simp add: removeWave_def getWave_def)
qed

theorem removeWave_getWave_bounds_checked_witness:
  "removeWave \<lparr>waves = [SinusoidalWave 1 1 0, CosineWave 2 3 90, SquareWave 1 5 0],
                velocity = 1, currentTime = 0\<rparr> 3
     = \<lparr>waves = [SinusoidalWave 1 1 0, CosineWave 2 3 90, SquareWave 1 5 0],
        velocity = 1, currentTime = 0\<rparr> \<and>
   getWave \<lparr>waves = [SinusoidalWave 1 1 0, CosineWave 2 3 90, SquareWave 1 5 0],
             velocity = 1, currentTime = 0\<rparr> 3 = None \<and>
   getWave \<lparr>waves = [SinusoidalWave 1 1 0, CosineWave 2 3 90, SquareWave 1 5 0],
             velocity = 1, currentTime = 0\<rparr> 1 = Some (CosineWave 2 3 90) \<and>
   waves (removeWave \<lparr>waves = [SinusoidalWave 1 1 0, CosineWave 2 3 90, SquareWave 1 5 0],
                        velocity = 1, currentTime = 0\<rparr> 1) ! 0 = SinusoidalWave 1 1 0 \<and>
   waves (removeWave \<lparr>waves = [SinusoidalWave 1 1 0, CosineWave 2 3 90, SquareWave 1 5 0],
                        velocity = 1, currentTime = 0\<rparr> 1) ! 1 = SquareWave 1 5 0"
  using removeWave_getWave_bounds_checked
          [of "\<lparr>waves = [SinusoidalWave 1 1 0, CosineWave 2 3 90, SquareWave 1 5 0],
                 velocity = 1, currentTime = 0\<rparr>" 3]
        removeWave_getWave_bounds_checked
          [of "\<lparr>waves = [SinusoidalWave 1 1 0, CosineWave 2 3 90, SquareWave 1 5 0],
                 velocity = 1, currentTime = 0\<rparr>" 1]
  by simp

section \<open>Largest amplitude\<close>

lemma fold_max_Max:
  "fold (\<lambda>w m. max m (f w)) ws (a::real) = Max (insert a (f ` set ws))"
proof (induction ws arbitrary: a)
  case Nil
  show ?case by simp
next
  case (Cons w ws)
  have "Max (insert (max a (f w)) (f ` set ws)) = Max (insert a (insert (f w) (f ` set ws)))"
  proof (cases "set ws = {}")
    case True
    then show ?thesis by (simp add: max.commute)
  next
    case False
    then show ?thesis by (simp add: max.assoc)
  qed
  with Cons show ?case by simp
qed

text \<open>
  Claim C10. \<open>getMaxAmplitude\<close> is never negative: it is the maximum of \<open>0\<close> and all
  amplitudes of the owned waves, hence \<open>0\<close> for an engine without waves and \<open>0\<close> when
  every amplitude is negative.
\<close>

theorem getMaxAmplitude_floor_zero:
  "0 \<le> getMaxAmplitude e \<and>
   getMaxAmplitude e = Max (insert 0 (getAmplitude ` set (waves e))) \<and>
   (waves e = [] \<longrightarrow> getMaxAmplitude e = 0) \<and>
   ((\<forall>w \<in> set (waves e). getAmplitude w < 0) \<longrightarrow> getMaxAmplitude e = 0)"
proof -
  let ?A = "insert 0 (getAmplitude ` set (waves e))"
  have eq: "getMaxAmplitude e = Max ?A"
    by (simp add: getMaxAmplitude_def fold_max_Max)
  have fin: "finite ?A" by simp
  have ge: "0 \<le> Max ?A" using fin by (simp add: Max_ge)
  have neg: "Max ?A = 0" if "\<forall>w \<in> set (waves e). getAmplitude w < 0"
  proof (rule Max_eqI [OF fin])
    show "0 \<in> ?A" by simp
    fix y assume "y \<in> ?A"
    with that show "y \<le> 0" by auto
  qed
  show ?thesis using eq ge neg by (simp add: getMaxAmplitude_def)
qed

theorem getMaxAmplitude_floor_zero_witness:
  "getMaxAmplitude \<lparr>waves = [SinusoidalWave (- 2) 1 0, CosineWave (- 3) 2 0],
                     velocity = 1, currentTime = 0\<rparr> = 0 \<and>
   getMaxAmplitude \<lparr>waves = [], velocity = 1, currentTime = 0\<rparr> = 0"
  using getMaxAmplitude_floor_zero
          [of "\<lparr>waves = [SinusoidalWave (- 2) 1 0, CosineWave (- 3) 2 0],
                 velocity = 1, currentTime = 0\<rparr>"]
        getMaxAmplitude_floor_zero
          [of "\<lparr>waves = [], velocity = 1, currentTime = 0\<rparr>"]
  by simp

section \<open>nextPowerOfTwo and the length of a transform\<close>

lemma nextPowerOfTwo_loop_inv:
  "0 < pwr \<Longrightarrow> (\<exists>k. pwr = 2 ^ k) \<Longrightarrow> (\<forall>j. 2 ^ j < pwr \<longrightarrow> 2 ^ j < n) \<Longrightarrow>
   (\<exists>k. nextPowerOfTwo_loop pwr n = 2 ^ k) \<and> n \<le> nextPowerOfTwo_loop pwr n \<and>
   (\<forall>j. 2 ^ j < nextPowerOfTwo_loop pwr n \<longrightarrow> 2 ^ j < n)"
proof (induction pwr n rule: nextPowerOfTwo_loop.induct)
  case (1 pwr n)
  show ?case
  proof (cases "pwr < n")
    case True
    from "1.prems"(2) obtain k where k: "pwr = 2 ^ k" by blast
    have a: "\<exists>k'. pwr * 2 = 2 ^ k'" using k by (intro exI [of _ "Suc k"]) simp
    have b: "\<forall>j. (2::nat) ^ j < pwr * 2 \<longrightarrow> 2 ^ j < n"
    proof (intro allI impI)
      fix j assume "(2::nat) ^ j < pwr * 2"
      then have "(2::nat) ^ j < 2 ^ Suc k" using k by simp
      then have "j < Suc k" using power_less_imp_less_exp [of 2 j "Suc k"] by simp
      then have "(2::nat) ^ j \<le> 2 ^ k" by (simp add: power_increasing)
      with True k show "2 ^ j < n" by linarith
    qed
    have "nextPowerOfTwo_loop pwr n = nextPowerOfTwo_loop (pwr * 2) n"
      using True "1.prems"(1) by (subst nextPowerOfTwo_loop.simps) simp
    moreover have "(\<exists>k. nextPowerOfTwo_loop (pwr * 2) n = 2 ^ k) \<and> n \<le> nextPowerOfTwo_loop (pwr * 2) n \<and>
       (\<forall>j. 2 ^ j < nextPowerOfTwo_loop (pwr * 2) n \<longrightarrow> 2 ^ j < n)"
      using "1.IH" True "1.prems"(1) a b by simp
    ultimately show ?thesis by simp
  next
    case False
    then have "nextPowerOfTwo_loop pwr n = pwr"
      by (subst nextPowerOfTwo_loop.simps) simp
    with False "1.prems" show ?thesis by simp
  qed
qed

lemma nextPowerOfTwo_spec:
  "(\<exists>k. nextPowerOfTwo n = 2 ^ k) \<and> n \<le> nextPowerOfTwo n \<and>
   (\<forall>j. n \<le> 2 ^ j \<longrightarrow> nextPowerOfTwo n \<le> 2 ^ j)"
proof (cases "n \<le> 1")
  case True
  then have "nextPowerOfTwo n = 1" by (simp add: nextPowerOfTwo_def)
  moreover have "\<exists>k. (1::nat) = 2 ^ k" by (intro exI [of _ 0]) simp
  ultimately show ?thesis using True by simp
next
  case False
  have inv: "(\<exists>k. nextPowerOfTwo_loop 1 n = 2 ^ k) \<and> n \<le> nextPowerOfTwo_loop 1 n \<and>
   (\<forall>j. 2 ^ j < nextPowerOfTwo_loop 1 n \<longrightarrow> 2 ^ j < n)"
  proof (rule nextPowerOfTwo_loop_inv)
    show "\<exists>k. (1::nat) = 2 ^ k" by (intro exI [of _ 0]) simp
  qed simp_all
  have eq: "nextPowerOfTwo n = nextPowerOfTwo_loop 1 n" using False by (simp add: nextPowerOfTwo_def)
  have "\<forall>j. n \<le> 2 ^ j \<longrightarrow> nextPowerOfTwo_loop 1 n \<le> 2 ^ j"
  proof (intro allI impI)
    fix j assume le: "n \<le> 2 ^ j"
    show "nextPowerOfTwo_loop 1 n \<le> 2 ^ j"
    proof (rule ccontr)
      assume "\<not> nextPowerOfTwo_loop 1 n \<le> 2 ^ j"
      then have "2 ^ j < nextPowerOfTwo_loop 1 n" by simp
      with inv have "2 ^ j < n" by blast
      with le show False by simp
    qed
  qed
  with inv eq show ?thesis by simp
qed

lemma length_combine_fold:
  "length (fold (combine_step n e o') ks r) = length r"
  by (induction ks arbitrary: r) (simp_all add: combine_step_def Let_def)

lemma length_combine: "length (combine n e o') = n"
  by (simp add: combine_def length_combine_fold)

lemma length_fftRecursive: "length (fftRecursive x) = length x"
proof (induction x rule: fftRecursive.induct)
  case (1 x)
  show ?case by (subst fftRecursive.simps) (simp add: length_combine)
qed

lemma length_fft: "length (fft signal) = nextPowerOfTwo (length signal)"
  using nextPowerOfTwo_spec [of "length signal"]
  by (simp add: fft_def Let_def length_fftRecursive resize_def)

lemma fft_Nil: "fft [] = [Complex_zero]"
  by (simp add: fft_def resize_def nextPowerOfTwo_def fftRecursive.simps)





text \<open>
  Claim C9. For every signal, \<open>fft\<close> returns a vector whose length is a power of two,
  at least the length of the signal and at least 1, and no larger than any power of two
  that is at least the length of the signal; the transform of the empty signal is the
  one-element vector holding the zero sample.
\<close>

theorem fft_length_smallest_power_of_two:
  "(\<exists>k. length (fft signal) = 2 ^ k) \<and>
   length signal \<le> length (fft signal) \<and>
   1 \<le> length (fft signal) \<and>
   (\<forall>j. length signal \<le> 2 ^ j \<longrightarrow> length (fft signal) \<le> 2 ^ j) \<and>
   fft [] = [Complex_zero]"
proof -
  obtain k where "nextPowerOfTwo (length signal) = 2 ^ k"
    using nextPowerOfTwo_spec by blast
  then have "1 \<le> nextPowerOfTwo (length signal)" by simp
  then show ?thesis
    using nextPowerOfTwo_spec [of "length signal"] by (simp add: length_fft fft_Nil)
qed

theorem fft_length_smallest_power_of_two_witness:
  "3 \<le> length (fft [1, 2, 3]) \<and> length (fft [1, 2, 3]) \<le> 4 \<and> fft [] = [Complex_zero]"
proof -
  note t = fft_length_smallest_power_of_two [of "[1, 2, 3]"]
  from t have "\<forall>j. length [1, 2, 3 :: real] \<le> 2 ^ j \<longrightarrow> length (fft [1, 2, 3]) \<le> 2 ^ j"
    by blast
  from this [rule_format, of 2] have "length (fft [1, 2, 3]) \<le> 4" by simp
  with t show ?thesis by simp
qed

section \<open>The recursive transform computes the discrete Fourier transform\<close>












section \<open>The inverse transform undoes the forward transform\<close>







lemma nextPowerOfTwo_power: "nextPowerOfTwo (2 ^ m) = 2 ^ m"
  using nextPowerOfTwo_spec [of "2 ^ m"] by (auto intro: antisym)





section \<open>The round trip in double arithmetic\<close>
















section \<open>getSpectrum: the one-sided spectrum\<close>

text \<open>
  Claim C4. For a non-empty signal, with \<open>X\<close> the transform of the Hanning-windowed
  signal and \<open>N\<close> its length (the padded size): \<open>getSpectrum\<close> returns \<open>N / 2 + 1\<close>
  bins; an interior bin \<open>0 < i < N / 2\<close> has the magnitude of \<open>X[i]\<close> times \<open>2 / N\<close>, the
  DC bin and the Nyquist bin that of their entry times \<open>1 / N\<close>; bin \<open>i\<close> has frequency
  \<open>i * sampleRate / N\<close>; \<open>frequencyResolution = sampleRate / N\<close> and
  \<open>maxFrequency = sampleRate / 2\<close>.
\<close>

theorem getSpectrum_one_sided:
  assumes "signal \<noteq> []"
      and "X = fft (applyWindow signal ''hanning'')"
      and "N = length X"
      and "S = getSpectrum signal rate"
  shows "N = nextPowerOfTwo (length signal) \<and>
         length (bins S) = N div 2 + 1 \<and>
         frequencyResolution S = rate / real N \<and>
         maxFrequency S = rate / 2 \<and>
         sampleRate S = rate \<and>
         (\<forall>i \<le> N div 2. frequency (bins S ! i) = real i * rate / real N) \<and>
         (\<forall>i. 0 < i \<and> i < N div 2 \<longrightarrow>
              magnitude (bins S ! i) = magnitude_c (X ! i) * (2 / real N)) \<and>
         magnitude (bins S ! 0) = magnitude_c (X ! 0) * (1 / real N) \<and>
         magnitude (bins S ! (N div 2)) = magnitude_c (X ! (N div 2)) * (1 / real N)"
proof -
  have N: "N = nextPowerOfTwo (length signal)"
    using assms(2,3) by (simp add: length_fft applyWindow_def)
  have S: "S = \<lparr>bins = map (spectrum_bin X (rate / real N)) [0..<N div 2 + 1],
                sampleRate = rate, frequencyResolution = rate / real N,
                maxFrequency = rate / 2,
                harmonics = findHarmonics
                   \<lparr>bins = map (spectrum_bin X (rate / real N)) [0..<N div 2 + 1],
                    sampleRate = rate, frequencyResolution = rate / real N,
                    maxFrequency = rate / 2, harmonics = []\<rparr> 0.1\<rparr>"
    using assms by (simp add: getSpectrum_def Let_def)
  have bin: "bins S ! i = spectrum_bin X (rate / real N) i" if "i \<le> N div 2" for i
  proof -
    have "i < length [0..<N div 2 + 1]" using that by simp
    then have "map (spectrum_bin X (rate / real N)) [0..<N div 2 + 1] ! i
        = spectrum_bin X (rate / real N) ([0..<N div 2 + 1] ! i)"
      by (rule nth_map)
    also have "[0..<N div 2 + 1] ! i = i" using that by (simp del: upt_Suc)
    finally show ?thesis by (simp add: S del: upt_Suc)
  qed
  have len: "length (bins S) = N div 2 + 1" by (simp add: S del: upt_Suc)
  have fr: "\<forall>i \<le> N div 2. frequency (bins S ! i) = real i * rate / real N"
    by (simp add: bin spectrum_bin_def Let_def)
  have inner: "\<forall>i. 0 < i \<and> i < N div 2 \<longrightarrow>
              magnitude (bins S ! i) = magnitude_c (X ! i) * (2 / real N)"
    using assms(3) by (simp add: bin spectrum_bin_def Let_def)
  have dc: "magnitude (bins S ! 0) = magnitude_c (X ! 0) * (1 / real N)"
    using assms(3) by (simp add: bin spectrum_bin_def Let_def)
  have ny: "magnitude (bins S ! (N div 2)) = magnitude_c (X ! (N div 2)) * (1 / real N)"
    using assms(3) by (simp add: bin spectrum_bin_def Let_def)
  show ?thesis using N len fr inner dc ny by (simp add: S)
qed

theorem getSpectrum_one_sided_witness:
  "length (bins (getSpectrum [1, 2, 3, 4] 8)) = 3 \<and>
   frequencyResolution (getSpectrum [1, 2, 3, 4] 8) = 2 \<and>
   maxFrequency (getSpectrum [1, 2, 3, 4] 8) = 4 \<and>
   frequency (bins (getSpectrum [1, 2, 3, 4] 8) ! 1) = 2 \<and>
   magnitude (bins (getSpectrum [1, 2, 3, 4] 8) ! 1) =
     magnitude_c (fft (applyWindow [1, 2, 3, 4] ''hanning'') ! 1) * (2 / 4)"
proof -
  have "length [1, 2, 3, 4 :: real] = 4" by simp
  moreover have "nextPowerOfTwo 4 = 4" using nextPowerOfTwo_power [of 2] by simp
  ultimately have n: "nextPowerOfTwo (length [1, 2, 3, 4 :: real]) = 4" by (simp only:)
  note t = getSpectrum_one_sided [of "[1, 2, 3, 4]" "fft (applyWindow [1, 2, 3, 4] ''hanning'')"
              "length (fft (applyWindow [1, 2, 3, 4] ''hanning''))" "getSpectrum [1, 2, 3, 4] 8" 8]
  have N: "length (fft (applyWindow [1, 2, 3, 4] ''hanning'')) = 4"
    using t n by simp
  from t have "\<forall>i \<le> 4 div 2. frequency (bins (getSpectrum [1, 2, 3, 4] 8) ! i) = real i * 8 / real (4::nat)"
    unfolding N by simp
  from this [rule_format, of 1] have f1: "frequency (bins (getSpectrum [1, 2, 3, 4] 8) ! 1) = 2" by simp
  from t have "\<forall>i. 0 < i \<and> i < 4 div 2 \<longrightarrow>
      magnitude (bins (getSpectrum [1, 2, 3, 4] 8) ! i) =
        magnitude_c (fft (applyWindow [1, 2, 3, 4] ''hanning'') ! i) * (2 / real (4::nat))"
    unfolding N by simp
  from this [rule_format, of 1] have m1: "magnitude (bins (getSpectrum [1, 2, 3, 4] 8) ! 1) =
     magnitude_c (fft (applyWindow [1, 2, 3, 4] ''hanning'') ! 1) * (2 / 4)" by simp
  from t show ?thesis unfolding N using f1 m1 by simp
qed

section \<open>findHarmonics\<close>











section \<open>Filters: index range\<close>

lemma lowPass_loop_faults:
  "length spectrum \<le> i \<Longrightarrow> i < bound \<Longrightarrow> lowPass_loop spectrum bound i = Inl OutOfBounds"
  by (subst lowPass_loop.simps) (simp add: write_at_def)

lemma size_t_minus_mirror:
  assumes "0 < i" "i < n"
  shows "size_t_minus n i < n"
proof (cases "n < 2 ^ 64")
  case True
  have "n + 2 ^ 64 - i = (n - i) + 1 * 2 ^ 64" using assms by simp
  then have "size_t_minus n i = (n - i) mod 2 ^ 64"
    unfolding size_t_minus_def by (simp only: mod_mult_self1)
  also have "\<dots> = n - i" using True by simp
  finally show ?thesis using assms by simp
next
  case False
  have "size_t_minus n i < 2 ^ 64" by (simp add: size_t_minus_def)
  with False show ?thesis by simp
qed

lemma highPass_step_in_range:
  assumes "i < length spectrum"
  shows "\<exists>spectrum'. highPass_step spectrum i = Inr spectrum' \<and> length spectrum' = length spectrum"
proof (cases "0 < i")
  case True
  then show ?thesis
    using assms size_t_minus_mirror [of i "length spectrum"]
    by (simp add: highPass_step_def write_at_def)
next
  case False
  then show ?thesis using assms by (simp add: highPass_step_def write_at_def)
qed

lemma highPass_loop_faults:
  "length spectrum \<le> cutoffBin \<Longrightarrow> i \<le> length spectrum \<Longrightarrow>
     highPass_loop spectrum cutoffBin i = Inl OutOfBounds"
proof (induction "length spectrum - i" arbitrary: spectrum i)
  case 0
  then have "highPass_step spectrum i = Inl OutOfBounds"
    by (simp add: highPass_step_def write_at_def)
  with 0 show ?case by (subst highPass_loop.simps) simp
next
  case (Suc d)
  then have "i < length spectrum" by simp
  then obtain spectrum' where s: "highPass_step spectrum i = Inr spectrum'"
      "length spectrum' = length spectrum"
    using highPass_step_in_range by blast
  have "highPass_loop spectrum cutoffBin i = highPass_loop spectrum' cutoffBin (i + 1)"
    using Suc.prems s by (subst highPass_loop.simps) simp
  also have "\<dots> = Inl OutOfBounds"
    using Suc s by (intro Suc.hyps(1)) simp_all
  finally show ?case .
qed

lemma bandPass_loop_in_range:
  "\<exists>spectrum'. bandPass_loop spectrum lowBin highBin i = Inr spectrum'"
proof (induction spectrum lowBin highBin i rule: bandPass_loop.induct)
  case (1 spectrum lowBin highBin i)
  show ?case
  proof (cases "i < length spectrum")
    case False
    then show ?thesis by (subst bandPass_loop.simps) simp
  next
    case True
    show ?thesis
    proof (cases "bandPass_zeroes (length spectrum) lowBin highBin i")
      case z: True
      have w: "write_at spectrum i Complex_zero = Inr (spectrum[i := Complex_zero])"
        using True by (simp add: write_at_def)
      from "1.IH"(1) [OF True z w] show ?thesis
        using True z w by (subst bandPass_loop.simps) simp
    next
      case z: False
      from "1.IH"(2) [OF True z] show ?thesis
        using True z by (subst bandPass_loop.simps) simp
    qed
  qed
qed

lemma length_fft_4: "length (fft [a, b, c, d]) = 4"
proof -
  have "nextPowerOfTwo 4 = 4" using nextPowerOfTwo_power [of 2] by simp
  moreover have "length [a, b, c, d] = 4" by simp
  ultimately show ?thesis by (simp only: length_fft)
qed


text \<open>
  Claim C3. The claim is that no filter reads or writes the spectrum out of bounds,
  whatever the cutoff. The low-pass loop does for a cutoff above the sample rate
  (\<open>cutoffFreq = 8\<close>, \<open>sampleRate = 4\<close>, four samples: \<open>cutoffBin = 8\<close>, and
  \<open>spectrum.size() - cutoffBin\<close> wraps to \<open>2\<^sup>6\<^sup>4 - 4\<close>, so \<open>spectrum[8]\<close> is written), and
  the high-pass loop does for a cutoff equal to the sample rate (\<open>cutoffBin = 4\<close>: the
  loop runs to \<open>i = 4\<close> and writes \<open>spectrum[4]\<close>). The band-pass loop stays within the
  spectrum (\<open>bandPass_loop_in_range\<close>).
\<close>

theorem filters_index_out_of_bounds:
  "lowPassFilter [1, 2, 3, 4] 8 4 = Inl OutOfBounds \<and>
   highPassFilter [1, 2, 3, 4] 4 4 = Inl OutOfBounds"
proof
  have "frequency_bin 8 4 4 = Some 8" by (simp add: frequency_bin_def to_size_t_def)
  moreover have "(8::nat) < size_t_minus 4 8" by (simp add: size_t_minus_def)
  ultimately have "lowPass_spectrum [1, 2, 3, 4] 8 4 = Inl OutOfBounds"
    by (simp add: lowPass_spectrum_def Let_def length_fft_4 lowPass_loop_faults)
  then show "lowPassFilter [1, 2, 3, 4] 8 4 = Inl OutOfBounds"
    by (simp add: lowPassFilter_def to_time_domain_def)
next
  have "frequency_bin 4 4 4 = Some 4" by (simp add: frequency_bin_def to_size_t_def)
  then have "highPass_spectrum [1, 2, 3, 4] 4 4 = Inl OutOfBounds"
    by (simp add: highPass_spectrum_def Let_def length_fft_4 highPass_loop_faults)
  then show "highPassFilter [1, 2, 3, 4] 4 4 = Inl OutOfBounds"
    by (simp add: highPassFilter_def to_time_domain_def)
qed


section \<open>Band-pass filter: the mirrored half\<close>

lemma fft_delta: "fft [1, 0, 0, 0] =
   [\<lparr>real_c = 1, imag_c = 0\<rparr>, \<lparr>real_c = 1, imag_c = 0\<rparr>, \<lparr>real_c = 1, imag_c = 0\<rparr>, \<lparr>real_c = 1, imag_c = 0\<rparr>]"
proof -
  have n: "nextPowerOfTwo 4 = 4" using nextPowerOfTwo_power [of 2] by simp
  have l: "length [1, 0, 0, 0 :: real] = 4" by simp
  show ?thesis
    unfolding fft_def Let_def l n
    by (simp add: resize_def fftRecursive.simps combine_def combine_step_def twiddle_def
          Complex_add_def Complex_sub_def Complex_mul_def Complex_zero_def TWO_PI_def PI_def
          upt_conv_Cons Let_def)
qed

lemma ifft_bin1: "ifft [Complex_zero, \<lparr>real_c = 1, imag_c = 0\<rparr>, Complex_zero, Complex_zero] =
     [\<lparr>real_c = 1 / 4, imag_c = 0\<rparr>, \<lparr>real_c = 0, imag_c = 1 / 4\<rparr>,
      \<lparr>real_c = - (1 / 4), imag_c = 0\<rparr>, \<lparr>real_c = 0, imag_c = - (1 / 4)\<rparr>]"
  by (simp add: ifft_def fftRecursive.simps combine_def combine_step_def twiddle_def
          Complex_add_def Complex_sub_def Complex_mul_def Complex_zero_def TWO_PI_def PI_def
          upt_conv_Cons Let_def)

lemma bandPass_run:
  "bandPass_loop [\<lparr>real_c = 1, imag_c = 0\<rparr>, \<lparr>real_c = 1, imag_c = 0\<rparr>,
                  \<lparr>real_c = 1, imag_c = 0\<rparr>, \<lparr>real_c = 1, imag_c = 0\<rparr>] 1 1 0 =
     Inr [Complex_zero, \<lparr>real_c = 1, imag_c = 0\<rparr>, Complex_zero, Complex_zero]"
  by (simp add: bandPass_loop.simps bandPass_zeroes_def size_t_minus_def write_at_def)


lemma bandPass_band_edge_not_mirrored:
  assumes "0 < lowBin" "lowBin \<le> highBin" "2 * highBin < n" "n < 2 ^ 64"
  shows "\<not> bandPass_zeroes n lowBin highBin lowBin \<and>
         bandPass_zeroes n lowBin highBin (n - lowBin)"
proof -
  have "n + 2 ^ 64 - lowBin = (n - lowBin) + 1 * 2 ^ 64" using assms by simp
  then have "size_t_minus n lowBin = (n - lowBin) mod 2 ^ 64"
    unfolding size_t_minus_def by (simp only: mod_mult_self1)
  then have l: "size_t_minus n lowBin = n - lowBin" using assms by simp
  show ?thesis using assms by (auto simp: bandPass_zeroes_def l)
qed

text \<open>
  Claim C2. The claim is that bin \<open>k\<close> is zeroed exactly when bin \<open>N - k\<close> is, so that
  the output is real-valued. For the impulse \<open>[1, 0, 0, 0]\<close> at sample rate \<open>4\<close> and the
  band \<open>[1, 1]\<close> (Nyquist is \<open>2\<close>): all four bins of the transform are \<open>1\<close>; bin \<open>1\<close> is
  kept and its mirror, bin \<open>3\<close>, is zeroed, because the test for the mirrored range is
  strict at both ends; the inverse transform of the remaining spectrum has imaginary part
  \<open>1 / 4\<close> at index \<open>1\<close>, and the filter returns its real components only.
\<close>

theorem bandPass_zeroing_not_symmetric:
  "fft [1, 0, 0, 0] ! 1 = \<lparr>real_c = 1, imag_c = 0\<rparr> \<and>
   fft [1, 0, 0, 0] ! 3 = \<lparr>real_c = 1, imag_c = 0\<rparr> \<and>
   \<not> bandPass_zeroes 4 1 1 1 \<and> bandPass_zeroes 4 1 1 3 \<and>
   bandPass_spectrum [1, 0, 0, 0] 1 1 4 =
     Inr [Complex_zero, \<lparr>real_c = 1, imag_c = 0\<rparr>, Complex_zero, Complex_zero] \<and>
   imag_c (ifft [Complex_zero, \<lparr>real_c = 1, imag_c = 0\<rparr>, Complex_zero, Complex_zero] ! 1) = 1 / 4 \<and>
   bandPassFilter [1, 0, 0, 0] 1 1 4 = Inr [1 / 4, 0, - (1 / 4), 0]"
proof -
  have b: "frequency_bin 1 4 4 = Some 1" by (simp add: frequency_bin_def to_size_t_def)
  have sp: "bandPass_spectrum [1, 0, 0, 0] 1 1 4 =
     Inr [Complex_zero, \<lparr>real_c = 1, imag_c = 0\<rparr>, Complex_zero, Complex_zero]"
  proof -
    have len: "length [\<lparr>real_c = 1, imag_c = 0\<rparr>, \<lparr>real_c = 1, imag_c = 0\<rparr>,
                  \<lparr>real_c = 1, imag_c = 0\<rparr>, \<lparr>real_c = 1::real, imag_c = 0::real\<rparr>] = 4"
      by simp
    show ?thesis
      unfolding bandPass_spectrum_def Let_def fft_delta len b
      using bandPass_run by simp
  qed
  have z: "\<not> bandPass_zeroes 4 1 1 1 \<and> bandPass_zeroes 4 1 1 3"
    by (simp add: bandPass_zeroes_def size_t_minus_def)
  show ?thesis
    using z by (simp add: sp fft_delta ifft_bin1 bandPassFilter_def to_time_domain_def)
qed

section \<open>Beat frequency and phenomenon\<close>






lemma rnd_hundredth_less_2: "rnd 0.01 < 2"
proof -
  have "rnd 0.01 \<le> rnd 1" by (intro rnd_mono) simp
  then show ?thesis by (simp add: rnd_1)
qed




text \<open>
  The gap is the rounded one. The \<^verbatim>\<open>double\<close> values nearest to \<open>0.9\<close> and \<open>2.9\<close> differ by
  \<open>2 - 2\<^sup>-\<^sup>5\<^sup>3\<close>; their \<^verbatim>\<open>double\<close> difference is \<open>2\<close>, so the beat frequency is \<open>2\<close> and
  the phenomenon is not \<open>Beating\<close>.
\<close>

lemma detectPhenomenon_rounded_gap:
  "0 < rnd 2.9 - rnd 0.9 \<and> rnd 2.9 - rnd 0.9 < 2 \<and>
   detectPhenomenon \<lparr>waves = [SinusoidalWave 1 (rnd 0.9) 0, SinusoidalWave 1 (rnd 2.9) 0],
                      velocity = 1, currentTime = 0\<rparr> = ''Superposition''"
proof -
  have a: "rnd 0.9 = 8106479329266893 / 2 ^ 53"
    using rnd_pos_up [of "0.9" 53] by (simp add: rnd_def rne_def)
  have b: "rnd 2.9 = 6530219459687219 / 2 ^ 51"
    using rnd_pos_up [of "2.9" 51] by (simp add: rnd_def rne_def)
  have d: "rnd 2.9 - rnd 0.9 = 18014398509481983 / 2 ^ 53"
    unfolding a b by simp
  have fl: "\<lfloor>18014398509481983 / 2 ^ 53 * 2 ^ 52 :: real\<rfloor> = 9007199254740991"
    by (simp add: floor_eq_iff)
  have "rnd_pos (18014398509481983 / 2 ^ 53) =
      of_int (rne (18014398509481983 / 2 ^ 53 * 2 ^ 52)) / 2 ^ 52"
    by (rule rnd_pos_up) simp_all
  also have "rne (18014398509481983 / 2 ^ 53 * 2 ^ 52) = 9007199254740992"
    unfolding rne_def Let_def fl by simp
  finally have "rnd (18014398509481983 / 2 ^ 53) = 2" by (simp add: rnd_def)
  then have g: "rnd (rnd 2.9 - rnd 0.9) = 2" unfolding d .
  have "rnd 0.9 - rnd 2.9 = - (rnd 2.9 - rnd 0.9)" by simp
  then have g': "rnd (rnd 0.9 - rnd 2.9) = - 2" using g by (simp only: rnd_minus)
  have le: "rnd 0.9 \<le> rnd 2.9" by (intro rnd_mono) simp
  have srt: "sort [rnd 0.9, rnd 2.9] = [rnd 0.9, rnd 2.9]" using le by simp
  have big: "2 < DBL_MAX"
  proof -
    have e: "(2::real) ^ 971 * 2 ^ 53 = 2 ^ 1024" by (simp flip: power_add)
    have "(2::real) ^ 2 \<le> 2 ^ 971" by (rule power_increasing) simp_all
    then have b4: "(4::real) \<le> 2 ^ 971" by simp
    have "(2::real) ^ 1 \<le> 2 ^ 53" by (rule power_increasing) simp_all
    then have "(2::real) ^ 971 * 2 \<le> 2 ^ 971 * 2 ^ 53" by simp
    then have "(2::real) ^ 971 \<le> 2 ^ 1024 - 2 ^ 971" unfolding e by simp
    then show ?thesis unfolding DBL_MAX_def using b4 by linarith
  qed
  have bs: "beat_step [rnd 0.9, rnd 2.9] (Suc 0) DBL_MAX = 2"
    using big by (simp add: beat_step_def Let_def g)
  have u: "[1..<length [rnd 0.9, rnd 2.9]] = [1]" by (simp add: upt_conv_Cons)
  have cbf: "calculateBeatFrequency \<lparr>waves = [SinusoidalWave 1 (rnd 0.9) 0, SinusoidalWave 1 (rnd 2.9) 0],
                      velocity = 1, currentTime = 0\<rparr> = 2"
    using big
    by (simp add: calculateBeatFrequency_def Let_def srt u bs del: sort_key_simps)
  have res: "\<not> hasResonance [rnd 0.9, rnd 2.9]"
    using rnd_hundredth_less_2
    by (simp add: hasResonance_def upt_conv_Cons g' del: rnd_hundredth)
  have p1: "0 < rnd 2.9 - rnd 0.9" unfolding d by simp
  have p2: "rnd 2.9 - rnd 0.9 < 2" unfolding d by simp
  show ?thesis
    using cbf res p1 p2 by (simp add: detectPhenomenon_def Let_def)
qed

section \<open>Two-wave interference\<close>

text \<open>No implementation of \<^verbatim>\<open>evaluate\<close> depends on the position.\<close>

lemma evaluate_position: "evaluate sin_d cos_d wave x t = evaluate sin_d cos_d wave 0 t"
  by (simp add: evaluate_def)

lemma normalize_down_stuck:
  assumes "360 \<le> D" "rnd (D - 360) = D"
  shows "normalize_down D = None"
proof (cases "normalize_down D")
  case None
  then show ?thesis .
next
  case (Some y)
  have "D \<noteq> D"
  proof (rule normalize_down.raw_induct [where P = "\<lambda>x y. x \<noteq> D", OF _ Some])
    fix f :: "real \<Rightarrow> real option" and diff diffa :: real
    assume IH: "\<And>x y. f x = Some y \<Longrightarrow> x \<noteq> D"
       and st: "(if 360 \<le> diff then f (rnd (diff - 360)) else Some diff) = Some diffa"
    show "diff \<noteq> D"
    proof
      assume e: "diff = D"
      with st assms have "f D = Some diffa" by simp
      with IH show False by blast
    qed
  qed
  then show ?thesis by simp
qed

lemma normalize_up_nonneg: "0 \<le> d \<Longrightarrow> normalize_up d = Some d"
  by (subst normalize_up.simps) simp

















lemma rnd_90: "rnd 90 = 90"
  using rnd_pos_up [of 90 46] by (simp add: rnd_def rne_def)

lemma rnd_2_70: "rnd (2 ^ 70) = 2 ^ 70"
proof -
  have "rnd_pos (2 ^ 70) = of_int (rne (2 ^ 70 / 2 ^ 18)) * 2 ^ 18"
    by (rule rnd_pos_down) simp_all
  also have "(2 ^ 70 / 2 ^ 18 :: real) = of_int (2 ^ 52)" by simp
  also have "rne (of_int (2 ^ 52)) = 2 ^ 52" by (rule rne_of_int)
  finally show ?thesis by (simp add: rnd_def)
qed

lemma rnd_2_70_minus_360: "rnd (2 ^ 70 - 360) = 2 ^ 70"
proof -
  have fl: "\<lfloor>(2 ^ 70 - 360) / 2 ^ 17 :: real\<rfloor> = 2 ^ 53 - 1"
    by (simp add: floor_eq_iff)
  have r: "rne ((2 ^ 70 - 360) / 2 ^ 17) = 2 ^ 53"
    unfolding rne_def Let_def fl by simp
  have "rnd_pos (2 ^ 70 - 360) = of_int (rne ((2 ^ 70 - 360) / 2 ^ 17)) * 2 ^ 17"
    by (rule rnd_pos_down) simp_all
  then have "rnd_pos (2 ^ 70 - 360) = 2 ^ 70" unfolding r by simp
  then show ?thesis by (simp add: rnd_def)
qed

text \<open>
  A bound on the phases is needed: with \<open>phase2 - phase1 = 2\<^sup>7\<^sup>0\<close> the step
  \<^verbatim>\<open>diff -= 360.0\<close> rounds back to \<open>2\<^sup>7\<^sup>0\<close>, the loop \<^verbatim>\<open>while (diff >= 360.0)\<close> never ends
  and the call does not return. (The user interface keeps a phase in \<open>[0, 360]\<close>.)
\<close>

lemma calculateTwoWaveInterference_no_return:
  "calculateTwoWaveInterference (evaluate sin_rn cos_rn) (SinusoidalWave 1 1 0) (SinusoidalWave 1 1 (2 ^ 70))
     0 10 2 = None"
proof -
  have "(360::real) \<le> 2 ^ 70" by simp
  then have nd: "normalize_down (2 ^ 70) = None"
    using rnd_2_70_minus_360 by (rule normalize_down_stuck)
  have d: "rnd (getPhase (SinusoidalWave 1 1 (2 ^ 70)) - getPhase (SinusoidalWave 1 1 0)) = 2 ^ 70"
    by (simp only: WaveFunction.sel diff_zero rnd_2_70)
  have nu: "normalize_up (2 ^ 70) = Some (2 ^ 70)" by (rule normalize_up_nonneg) simp
  have "calculatePhaseShift (SinusoidalWave 1 1 0) (SinusoidalWave 1 1 (2 ^ 70)) = None"
    by (simp only: calculatePhaseShift_def Let_def d nu option.case nd)
  moreover have "two_wave_samples (evaluate sin_rn cos_rn) (SinusoidalWave 1 1 0) (SinusoidalWave 1 1 (2 ^ 70))
      0 10 2 \<noteq> []"
    by (simp add: two_wave_samples_def sample_positions_def Let_def upt_conv_Cons)
  ultimately show ?thesis
    by (simp add: calculateTwoWaveInterference_def Let_def)
qed






end
